theory Spec2Isabelle
  imports Complex_Main "HOL-Library.Sublist" "HOL-Library.AList" "HOL-Library.Multiset"
begin

section \<open>Python primitives used by the retrieval subsystem\<close>

text \<open>
  Python integers are unbounded: they are \<open>int\<close>. A Python \<open>str\<close> is a
  \<open>string\<close>, one \<open>char\<close> per character (the model's alphabet is the 256
  characters of \<open>char\<close>). Exceptions are values of \<open>error\<close>; a function that can
  raise returns \<open>error + 'a\<close>, with \<open>Inl\<close> for the exception.
\<close>

datatype error = KeyError string | ValueError | TypeError | IndexError | AttributeError | IOError

text \<open>
  Slice bounds as CPython adjusts them for a sequence of length \<open>n\<close>: a negative index
  counts from the end and is clamped to 0, an index past the end is clamped to \<open>n\<close>.
\<close>

definition slice_index :: "nat \<Rightarrow> int \<Rightarrow> nat" where
  "slice_index n i = (if i < 0 then nat (max 0 (i + int n)) else min (nat i) n)"

text \<open>\<open>xs[start:stop]\<close>: empty when the adjusted start is not before the adjusted stop.\<close>

definition py_slice :: "'a list \<Rightarrow> int \<Rightarrow> int \<Rightarrow> 'a list" where
  "py_slice xs start stop =
     (let s = slice_index (length xs) start; e = slice_index (length xs) stop
      in take (e - s) (drop s xs))"

text \<open>\<open>xs[:stop]\<close>.\<close>

definition py_prefix :: "'a list \<Rightarrow> int \<Rightarrow> 'a list" where
  "py_prefix xs stop = take (slice_index (length xs) stop) xs"

text \<open>
  \<open>rfind_down c s lo hi\<close> is the highest index \<open>i\<close> with \<open>lo \<le> i < hi\<close> and
  \<open>s[i] = c\<close>, or \<open>-1\<close>; \<open>hi\<close> is at most the length of \<open>s\<close>.
\<close>

fun rfind_down :: "char \<Rightarrow> string \<Rightarrow> nat \<Rightarrow> nat \<Rightarrow> int" where
  "rfind_down c s lo 0 = -1"
| "rfind_down c s lo (Suc i) =
     (if Suc i \<le> lo then -1
      else if s ! i = c then int i
      else rfind_down c s lo i)"

text \<open>\<open>s.rfind(c, start, stop)\<close> for a one-character \<open>c\<close>; the bounds are read as slice bounds.\<close>

definition py_rfind :: "char \<Rightarrow> string \<Rightarrow> int \<Rightarrow> int \<Rightarrow> int" where
  "py_rfind c s start stop =
     rfind_down c s (slice_index (length s) start) (slice_index (length s) stop)"

section \<open>DocumentProcessor.chunk\_text\<close>

text \<open>
  Lines 119 to 131 of \<open>document_processor.py\<close>: the right edge of the window that
  starts at \<open>start\<close>. The hard edge is \<open>min(start + chunk_size, len(text))\<close>; when it
  falls inside the text, the edge moves to just after the last newline of the window, else
  to just after its last space, when that character lies after \<open>start\<close>.
\<close>

definition window_end :: "string \<Rightarrow> int \<Rightarrow> int \<Rightarrow> int" where
  "window_end text chunk_size start =
     (let e = min (start + chunk_size) (int (length text))
      in if e < int (length text) then
           (let newline_pos = py_rfind (CHR 0x0A) text start e
            in if newline_pos > start then newline_pos + 1
               else (let space_pos = py_rfind (CHR '' '') text start e
                     in if space_pos > start then space_pos + 1 else e))
         else e)"

text \<open>
  The \<open>while\<close> loop of \<open>chunk_text\<close> (lines 118 to 138), with the loop variables
  \<open>start\<close>, \<open>count\<close> (written \<open>cnt\<close>) and \<open>chunks\<close> as arguments. The
  recursion is not assumed to terminate: \<open>None\<close> would be a loop that never returns.
  The \<open>break\<close> of line 135 is the branch \<open>e \<le> start\<close>.
\<close>

partial_function (option) chunk_loop ::
  "int \<Rightarrow> string \<Rightarrow> int \<Rightarrow> int \<Rightarrow> int \<Rightarrow> int \<Rightarrow> string list \<Rightarrow> string list option" where
  "chunk_loop max_chunks text chunk_size overlap start cnt chunks =
     (if start < int (length text) \<and> cnt < max_chunks then
        (let e = window_end text chunk_size start
         in if e \<le> start then Some chunks
            else chunk_loop max_chunks text chunk_size overlap (e - overlap) (cnt + 1)
                   (chunks @ [py_slice text start e]))
      else Some chunks)"

declare chunk_loop.simps [code]

text \<open>
  \<open>chunk_text\<close> (lines 95 to 140); \<open>max_chunks\<close> is the attribute \<open>self.max_chunks\<close>,
  read from the environment with 5000 as default.
\<close>

definition chunk_text :: "int \<Rightarrow> string \<Rightarrow> int \<Rightarrow> int \<Rightarrow> string list option" where
  "chunk_text max_chunks text chunk_size overlap =
     (if text = [] then Some []
      else (let overlap' = (if overlap \<ge> chunk_size then max 0 (chunk_size div 2) else overlap)
            in chunk_loop max_chunks text chunk_size overlap' 0 0 []))"

text \<open>
  The same loop, recording the window \<open>(start, e)\<close> of each chunk instead of the
  chunk: the chunks of \<open>chunk_loop\<close> are the slices \<open>text[start:e]\<close> of these windows
  (\<open>chunk_loop_windows\<close> below). It is used to state which characters the chunks cover.
\<close>

partial_function (option) window_loop ::
  "int \<Rightarrow> string \<Rightarrow> int \<Rightarrow> int \<Rightarrow> int \<Rightarrow> int \<Rightarrow> (int \<times> int) list \<Rightarrow> (int \<times> int) list option" where
  "window_loop max_chunks text chunk_size overlap start cnt windows =
     (if start < int (length text) \<and> cnt < max_chunks then
        (let e = window_end text chunk_size start
         in if e \<le> start then Some windows
            else window_loop max_chunks text chunk_size overlap (e - overlap) (cnt + 1)
                   (windows @ [(start, e)]))
      else Some windows)"

declare window_loop.simps [code]

definition chunk_windows :: "int \<Rightarrow> string \<Rightarrow> int \<Rightarrow> int \<Rightarrow> (int \<times> int) list option" where
  "chunk_windows max_chunks text chunk_size overlap =
     (if text = [] then Some []
      else (let overlap' = (if overlap \<ge> chunk_size then max 0 (chunk_size div 2) else overlap)
            in window_loop max_chunks text chunk_size overlap' 0 0 []))"

text \<open>Position \<open>i\<close> lies in one of the windows; the windows cover every position of the text.\<close>

definition in_window :: "(int \<times> int) list \<Rightarrow> int \<Rightarrow> bool" where
  "in_window windows i = list_ex (\<lambda>w. fst w \<le> i \<and> i < snd w) windows"

definition covers :: "string \<Rightarrow> (int \<times> int) list \<Rightarrow> bool" where
  "covers text windows = list_all (in_window windows) (map int [0..<length text])"

text \<open>The furthest right edge among the windows, 0 without windows.\<close>

fun furthest :: "(int \<times> int) list \<Rightarrow> int" where
  "furthest [] = 0"
| "furthest (w # ws) = max (snd w) (furthest ws)"

section \<open>Strings: lower case, substring, join, decimal numerals\<close>

text \<open>\<open>str.lower()\<close> on the ASCII letters; other characters are left as they are.\<close>

definition lower_char :: "char \<Rightarrow> char" where
  "lower_char c =
     (let n = (of_char c :: nat) in if 65 \<le> n \<and> n \<le> 90 then char_of (n + 32) else c)"

definition py_lower :: "string \<Rightarrow> string" where
  "py_lower s = map lower_char s"

text \<open>\<open>sub in s\<close> for strings.\<close>

definition py_in :: "string \<Rightarrow> string \<Rightarrow> bool" where
  "py_in sub s = sublist sub s"

text \<open>\<open>str(n)\<close> for a natural number \<open>n\<close>.\<close>

fun str_nat :: "nat \<Rightarrow> string" where
  "str_nat n =
     (if n < 10 then [char_of (48 + n)]
      else str_nat (n div 10) @ [char_of (48 + n mod 10)])"

declare str_nat.simps [simp del]

section \<open>Python values, dictionaries\<close>

text \<open>
  The floats numpy computes: a number, an infinity or NaN. A number is given by its real
  value (the floats are some of the reals); which float an operation yields after rounding
  is left to the parameters of \<open>runtime\<close> below, and fixed by the model only where
  float64 arithmetic fixes it whatever the operands: zeros, infinities and NaN.
\<close>

datatype npfloat = Fin real | PInf | NInf | NaN

text \<open>
  The values held in the dictionaries of the subsystem. A \<open>dict\<close> is an association
  list in insertion order, keys distinct.
\<close>

datatype pyval =
    VStr string
  | VInt int
  | VFloat npfloat
  | VDict "(string \<times> pyval) list"
  | VList "pyval list"

type_synonym pydict = "(string \<times> pyval) list"

text \<open>\<open>d[k]\<close> and \<open>d.get(k, default)\<close>.\<close>

definition py_getitem :: "pydict \<Rightarrow> string \<Rightarrow> error + pyval" where
  "py_getitem d k = (case map_of d k of None \<Rightarrow> Inl (KeyError k) | Some v \<Rightarrow> Inr v)"

definition py_get :: "pydict \<Rightarrow> string \<Rightarrow> pyval \<Rightarrow> pyval" where
  "py_get d k dflt = (case map_of d k of None \<Rightarrow> dflt | Some v \<Rightarrow> v)"

text \<open>\<open>[f(x) for x in xs]\<close> where \<open>f\<close> can raise: the first exception ends the comprehension.\<close>

primrec collect :: "('a \<Rightarrow> error + 'b) \<Rightarrow> 'a list \<Rightarrow> error + 'b list" where
  "collect f [] = Inr []"
| "collect f (x # xs) =
     (case f x of
        Inl e \<Rightarrow> Inl e
      | Inr y \<Rightarrow> (case collect f xs of Inl e \<Rightarrow> Inl e | Inr ys \<Rightarrow> Inr (y # ys)))"

text \<open>\<open>sep.join(items)\<close>: TypeError when an item is not a string.\<close>

primrec join_strs :: "string \<Rightarrow> string list \<Rightarrow> string" where
  "join_strs sep [] = []"
| "join_strs sep (x # xs) = (if xs = [] then x else x @ sep @ join_strs sep xs)"

definition as_str :: "pyval \<Rightarrow> error + string" where
  "as_str v = (case v of VStr s \<Rightarrow> Inr s | _ \<Rightarrow> Inl TypeError)"

definition py_join :: "string \<Rightarrow> pyval list \<Rightarrow> error + string" where
  "py_join sep items =
     (case collect as_str items of Inl e \<Rightarrow> Inl e | Inr strs \<Rightarrow> Inr (join_strs sep strs))"

section \<open>RAGHandler: cosine similarity and the local search\<close>

text \<open>
  A record of the local store: the dict \<open>{"id", "vector", "metadata"}\<close>. A vector is
  a list of floats, each a real number. The record refers to its metadata dict and does not
  copy it: \<open>metadata\<close> is the address of the dict object (see \<open>rag_handler\<close> below).
\<close>

record stored_doc =
  doc_id :: string
  vector :: "real list"
  metadata :: nat

text \<open>
  What the repository's code takes from numpy and from Python's sort, where the result is
  not fixed by the source: the values depend on float64 rounding, on the order in which the
  BLAS adds the products, and on the comparisons that \<open>list.sort\<close> happens to make.
  They are parameters of the model:
  \<^item> \<open>dot_impl v w\<close> is \<open>np.dot(v, w)\<close> for two arrays of equal length;
  \<^item> \<open>norm_impl v\<close> is \<open>np.linalg.norm(v)\<close>;
  \<^item> \<open>round64 r\<close> is the float that a product or quotient of exact value \<open>r \<noteq> 0\<close>
    becomes: the nearest float, or an infinity on overflow, or zero on underflow;
  \<^item> \<open>sort_incomparable xs\<close> is the list that \<open>xs.sort(key=..., reverse=True)\<close>
    leaves for three or more elements of which one has the key NaN.
\<close>

record runtime =
  dot_impl :: "real list \<Rightarrow> real list \<Rightarrow> npfloat"
  norm_impl :: "real list \<Rightarrow> npfloat"
  round64 :: "real \<Rightarrow> npfloat"
  sort_incomparable :: "(stored_doc \<times> npfloat) list \<Rightarrow> (stored_doc \<times> npfloat) list"

text \<open>
  \<open>np.dot\<close> of two one-dimensional arrays: ValueError when their lengths differ. When
  one array holds zeros only, every product is zero and so is their sum, in any order and
  with any rounding; otherwise the value is the BLAS's.
\<close>

definition np_dot :: "runtime \<Rightarrow> real list \<Rightarrow> real list \<Rightarrow> error + npfloat" where
  "np_dot rt vec1 vec2 =
     (if length vec1 \<noteq> length vec2 then Inl ValueError
      else Inr (if list_all (\<lambda>x. x = 0) vec1 \<or> list_all (\<lambda>x. x = 0) vec2 then Fin 0
                else dot_impl rt vec1 vec2))"

text \<open>\<open>np.linalg.norm\<close>: zero for an array of zeros, the library's value otherwise.\<close>

definition np_norm :: "runtime \<Rightarrow> real list \<Rightarrow> npfloat" where
  "np_norm rt vec = (if list_all (\<lambda>x. x = 0) vec then Fin 0 else norm_impl rt vec)"

text \<open>
  The product of two floats. NaN is contagious, zero times an infinity is NaN, a product
  with zero is zero; the product of two numbers other than zero is rounded. (The sign of
  zero is not modelled.)
\<close>

fun np_multiply :: "runtime \<Rightarrow> npfloat \<Rightarrow> npfloat \<Rightarrow> npfloat" where
  "np_multiply rt NaN _ = NaN"
| "np_multiply rt _ NaN = NaN"
| "np_multiply rt (Fin x) (Fin y) = (if x = 0 \<or> y = 0 then Fin 0 else round64 rt (x * y))"
| "np_multiply rt (Fin x) PInf = (if x = 0 then NaN else if x > 0 then PInf else NInf)"
| "np_multiply rt (Fin x) NInf = (if x = 0 then NaN else if x > 0 then NInf else PInf)"
| "np_multiply rt PInf (Fin y) = (if y = 0 then NaN else if y > 0 then PInf else NInf)"
| "np_multiply rt NInf (Fin y) = (if y = 0 then NaN else if y > 0 then NInf else PInf)"
| "np_multiply rt PInf PInf = PInf"
| "np_multiply rt PInf NInf = NInf"
| "np_multiply rt NInf PInf = NInf"
| "np_multiply rt NInf NInf = PInf"

text \<open>
  numpy's \<open>/\<close> on floats does not raise: \<open>0.0 / 0.0\<close> is NaN and \<open>x / 0.0\<close>
  is an infinity with the sign of \<open>x\<close> (a RuntimeWarning is printed). A quotient of
  two infinities is NaN, a number divided by an infinity is zero; the quotient of two
  numbers other than zero is rounded.
\<close>

fun np_truediv :: "runtime \<Rightarrow> npfloat \<Rightarrow> npfloat \<Rightarrow> npfloat" where
  "np_truediv rt NaN _ = NaN"
| "np_truediv rt _ NaN = NaN"
| "np_truediv rt (Fin x) (Fin y) =
     (if y = 0 then (if x = 0 then NaN else if x > 0 then PInf else NInf)
      else if x = 0 then Fin 0
      else round64 rt (x / y))"
| "np_truediv rt (Fin x) PInf = Fin 0"
| "np_truediv rt (Fin x) NInf = Fin 0"
| "np_truediv rt PInf (Fin y) = (if y \<ge> 0 then PInf else NInf)"
| "np_truediv rt NInf (Fin y) = (if y \<ge> 0 then NInf else PInf)"
| "np_truediv rt PInf PInf = NaN"
| "np_truediv rt PInf NInf = NaN"
| "np_truediv rt NInf PInf = NaN"
| "np_truediv rt NInf NInf = NaN"

text \<open>\<open>_cosine_similarity\<close> (lines 248 to 257 of \<open>rag_handler.py\<close>).\<close>

definition cosine_similarity :: "runtime \<Rightarrow> real list \<Rightarrow> real list \<Rightarrow> error + npfloat" where
  "cosine_similarity rt vec1 vec2 =
     (case np_dot rt vec1 vec2 of
        Inl e \<Rightarrow> Inl e
      | Inr dot_product \<Rightarrow>
          Inr (np_truediv rt dot_product (np_multiply rt (np_norm rt vec1) (np_norm rt vec2))))"

text \<open>The first loop of \<open>_mock_search\<close> (lines 229 to 233): one score per record, in store order.\<close>

primrec similarities ::
  "runtime \<Rightarrow> real list \<Rightarrow> stored_doc list \<Rightarrow> error + (stored_doc \<times> npfloat) list" where
  "similarities rt query_vector [] = Inr []"
| "similarities rt query_vector (doc # docs) =
     (case cosine_similarity rt query_vector (vector doc) of
        Inl e \<Rightarrow> Inl e
      | Inr similarity \<Rightarrow>
          (case similarities rt query_vector docs of
             Inl e \<Rightarrow> Inl e
           | Inr rest \<Rightarrow> Inr ((doc, similarity) # rest)))"

text \<open>Python's \<open><\<close> on floats: false whenever an operand is NaN.\<close>

fun np_less :: "npfloat \<Rightarrow> npfloat \<Rightarrow> bool" where
  "np_less NaN _ = False"
| "np_less _ NaN = False"
| "np_less (Fin a) (Fin b) = (a < b)"
| "np_less NInf NInf = False"
| "np_less NInf _ = True"
| "np_less _ NInf = False"
| "np_less PInf _ = False"
| "np_less _ PInf = True"

text \<open>
  \<open>list.sort(key=lambda x: x[1], reverse=True)\<close>: a stable sort into descending key
  order, which compares keys with \<open><\<close> only. When no key is NaN the keys are totally
  ordered and the result is fixed by the specification of the sort: each element stands
  before the first element whose key is smaller than its own, and elements with equal keys
  keep their order (\<open>insertion_desc\<close>). The same holds for a list of at most two elements,
  on which the sort makes one comparison. For three or more elements of which one has the
  key NaN the result depends on the comparisons the sort makes: it is the parameter
  \<open>sort_incomparable\<close>.
\<close>

fun insert_desc :: "('a \<times> npfloat) \<Rightarrow> ('a \<times> npfloat) list \<Rightarrow> ('a \<times> npfloat) list" where
  "insert_desc x [] = [x]"
| "insert_desc x (y # ys) =
     (if np_less (snd y) (snd x) then x # y # ys else y # insert_desc x ys)"

definition insertion_desc :: "('a \<times> npfloat) list \<Rightarrow> ('a \<times> npfloat) list" where
  "insertion_desc xs = foldl (\<lambda>sorted x. insert_desc x sorted) [] xs"

definition sort_desc :: "runtime \<Rightarrow> (stored_doc \<times> npfloat) list \<Rightarrow> (stored_doc \<times> npfloat) list" where
  "sort_desc rt xs =
     (if length xs \<le> 2 \<or> list_all (\<lambda>p. snd p \<noteq> NaN) xs then insertion_desc xs
      else sort_incomparable rt xs)"

text \<open>
  The result dict of one record (lines 240 to 244); \<open>dicts\<close> gives the dict object at
  an address.
\<close>

definition search_result :: "(nat \<Rightarrow> pydict) \<Rightarrow> stored_doc \<times> npfloat \<Rightarrow> pydict" where
  "search_result dicts p =
     [(''id'', VStr (doc_id (fst p))), (''score'', VFloat (snd p)),
      (''metadata'', VDict (dicts (metadata (fst p))))]"

text \<open>\<open>_mock_search\<close> (lines 217 to 246) on the list \<open>self.mock_vectors\<close>.\<close>

definition mock_search ::
  "runtime \<Rightarrow> (nat \<Rightarrow> pydict) \<Rightarrow> stored_doc list \<Rightarrow> real list \<Rightarrow> int \<Rightarrow> error + pydict list" where
  "mock_search rt dicts mock_vectors query_vector top_k =
     (case similarities rt query_vector mock_vectors of
        Inl e \<Rightarrow> Inl e
      | Inr sims \<Rightarrow> Inr (map (search_result dicts) (py_prefix (sort_desc rt sims) top_k)))"

text \<open>
  For the statement of the ranking: one score is at least another, neither being NaN; a
  list of scored records is in descending order of score.
\<close>

definition score_ge :: "npfloat \<Rightarrow> npfloat \<Rightarrow> bool" where
  "score_ge a b = (a \<noteq> NaN \<and> b \<noteq> NaN \<and> \<not> np_less a b)"

definition descending :: "('a \<times> npfloat) list \<Rightarrow> bool" where
  "descending xs = sorted_wrt (\<lambda>p q. score_ge (snd p) (snd q)) xs"

text \<open>
  Arithmetic without rounding, for the examples: their vectors are chosen so that every
  intermediate value is a float, and no example sorts three records with a NaN score.
\<close>

definition exact_runtime :: runtime where
  "exact_runtime =
     \<lparr>dot_impl = (\<lambda>v w. Fin (sum_list (map2 (*) v w))),
      norm_impl = (\<lambda>v. Fin (sqrt (sum_list (map (\<lambda>x. x * x) v)))),
      round64 = Fin,
      sort_incomparable = (\<lambda>xs. xs)\<rparr>"

section \<open>RAGHandler: state, add, delete, search, answer\<close>

text \<open>
  The handler's state. \<open>mock_vectors\<close> is \<open>None\<close> while the attribute has not been
  assigned: the constructor assigns it in mock mode only (lines 19 to 23 and 64 to 67).
  A record of the store holds a reference to its metadata dict, which can be a dict of the
  caller's: \<open>dicts h a\<close> is the dict object at address \<open>a\<close>, and \<open>next_dict h\<close>
  is the first address not in use (the caller's dicts lie below it).
  The remote index is an external service and is not part of the state; the embedding model
  and the remote query are parameters:
  \<^item> \<open>embed_text text\<close> is \<open>self.model.encode(text).tolist()\<close> (lines 136 to 146);
  \<^item> \<open>remote_query vector top_k\<close> is the list of matches of \<open>self.index.query\<close>, each
    a dict, or the exception the call raised.
\<close>

record rag_handler =
  mock :: bool
  mock_vectors :: "stored_doc list option"
  dicts :: "nat \<Rightarrow> pydict"
  next_dict :: nat

text \<open>\<open>self._mock_search(query_vector, top_k)\<close>: AttributeError without the attribute.\<close>

definition handler_mock_search ::
  "runtime \<Rightarrow> rag_handler \<Rightarrow> real list \<Rightarrow> int \<Rightarrow> error + pydict list" where
  "handler_mock_search rt h query_vector top_k =
     (case mock_vectors h of
        None \<Rightarrow> Inl AttributeError
      | Some docs \<Rightarrow> mock_search rt (dicts h) docs query_vector top_k)"

text \<open>
  \<open>add_document\<close> (lines 148 to 176). \<open>new_id\<close> is the value of \<open>str(uuid.uuid4())\<close>
  in this call. \<open>md\<close> is the argument \<open>metadata\<close>: \<open>None\<close>, or the address of the
  caller's dict. Line 165 writes the text into that dict itself (into a new dict \<open>{}\<close>
  when the argument is \<open>None\<close>), and the record appended holds the address, not a copy. In
  remote mode the record goes to the external service.
\<close>

definition add_document ::
  "(string \<Rightarrow> real list) \<Rightarrow> string \<Rightarrow> rag_handler \<Rightarrow> string \<Rightarrow> nat option
     \<Rightarrow> error + (rag_handler \<times> string)" where
  "add_document embed_text new_id h text md =
     (let vec = embed_text text;
          a = (case md of None \<Rightarrow> next_dict h | Some a \<Rightarrow> a);
          h1 = (case md of
                  None \<Rightarrow> h\<lparr>dicts := (dicts h)(next_dict h := []), next_dict := next_dict h + 1\<rparr>
                | Some _ \<Rightarrow> h);
          h2 = h1\<lparr>dicts := (dicts h1)(a := AList.update ''text'' (VStr text) (dicts h1 a))\<rparr>
      in if \<not> mock h then Inr (h2, new_id)
         else (case mock_vectors h of
                 None \<Rightarrow> Inl AttributeError
               | Some docs \<Rightarrow>
                   Inr (h2\<lparr>mock_vectors :=
                            Some (docs @ [\<lparr>doc_id = new_id, vector = vec, metadata = a\<rparr>])\<rparr>,
                        new_id)))"

text \<open>\<open>delete_document\<close> (lines 259 to 274).\<close>

definition delete_document :: "rag_handler \<Rightarrow> string \<Rightarrow> error + (rag_handler \<times> bool)" where
  "delete_document h target =
     (if \<not> mock h then Inr (h, True)
      else (case mock_vectors h of
              None \<Rightarrow> Inl AttributeError
            | Some docs \<Rightarrow>
                Inr (h\<lparr>mock_vectors := Some (filter (\<lambda>doc. doc_id doc \<noteq> target) docs)\<rparr>, True)))"

text \<open>
  The result dict built from one remote match (lines 203 to 207). A match is modelled as a
  dict, read with \<open>match.get\<close>; a match object with the attributes \<open>id\<close>,
  \<open>score\<close> and \<open>metadata\<close> is the dict that has these three keys.
\<close>

definition match_result :: "pydict \<Rightarrow> pydict" where
  "match_result m =
     [(''id'', py_get m ''id'' (VStr [])), (''score'', py_get m ''score'' (VInt 0)),
      (''metadata'', py_get m ''metadata'' (VDict []))]"

text \<open>\<open>search\<close> (lines 178 to 215): a remote query that raises falls back to the local search.\<close>

definition search ::
  "runtime \<Rightarrow> (string \<Rightarrow> real list) \<Rightarrow> (real list \<Rightarrow> int \<Rightarrow> error + pydict list)
     \<Rightarrow> rag_handler \<Rightarrow> string \<Rightarrow> int \<Rightarrow> error + pydict list" where
  "search rt embed_text remote_query h query top_k =
     (let query_vector = embed_text query
      in if \<not> mock h then
           (case remote_query query_vector top_k of
              Inr matches \<Rightarrow> Inr (map match_result matches)
            | Inl e \<Rightarrow> handler_mock_search rt h query_vector top_k)
         else handler_mock_search rt h query_vector top_k)"

text \<open>\<open>result["text"].lower()\<close>: KeyError without the key, AttributeError on a value that is not a string.\<close>

definition text_lower :: "pydict \<Rightarrow> error + string" where
  "text_lower result =
     (case py_getitem result ''text'' of
        Inl e \<Rightarrow> Inl e
      | Inr v \<Rightarrow> (case v of VStr s \<Rightarrow> Inr (py_lower s) | _ \<Rightarrow> Inl AttributeError))"

text \<open>\<open>any(p(result["text"].lower()) for result in results)\<close>: stops at the first true item.\<close>

primrec any_text :: "(string \<Rightarrow> bool) \<Rightarrow> pydict list \<Rightarrow> error + bool" where
  "any_text p [] = Inr False"
| "any_text p (result # results) =
     (case text_lower result of
        Inl e \<Rightarrow> Inl e
      | Inr t \<Rightarrow> if p t then Inr True else any_text p results)"

text \<open>\<open>results[0]["text"]\<close>.\<close>

definition first_text :: "pydict list \<Rightarrow> error + pyval" where
  "first_text results =
     (case results of [] \<Rightarrow> Inl IndexError | result # _ \<Rightarrow> py_getitem result ''text'')"

text \<open>\<open>results[0]["text"] if any(...) else fallback\<close>: the condition is evaluated first.\<close>

definition first_text_if :: "(string \<Rightarrow> bool) \<Rightarrow> string \<Rightarrow> pydict list \<Rightarrow> error + pyval" where
  "first_text_if p fallback results =
     (case any_text p results of
        Inl e \<Rightarrow> Inl e
      | Inr found \<Rightarrow> if found then first_text results else Inr (VStr fallback))"

text \<open>\<open>_generate_mock_answer\<close> (lines 307 to 328).\<close>

definition generate_mock_answer :: "string \<Rightarrow> string \<Rightarrow> pydict list \<Rightarrow> error + pyval" where
  "generate_mock_answer query context results =
     (let query_lower = py_lower query
      in if py_in ''abc analysis'' query_lower then
           first_text_if (\<lambda>t. py_in ''abc analysis'' t)
             ''ABC Analysis is an inventory categorization method which consists of dividing items into three categories: A, B, and C based on their value and sales frequency.''
             results
         else if py_in ''jit'' query_lower \<or> py_in ''just in time'' query_lower then
           first_text_if (\<lambda>t. py_in ''jit'' t \<or> py_in ''just-in-time'' t)
             ''Just-in-Time (JIT) inventory management is a strategy that aligns raw-material orders from suppliers directly with production schedules to reduce waste and inventory costs.''
             results
         else if py_in ''eoq'' query_lower \<or> py_in ''economic order quantity'' query_lower then
           first_text_if (\<lambda>t. py_in ''eoq'' t \<or> py_in ''economic order quantity'' t)
             ''Economic Order Quantity (EOQ) is the order quantity that minimizes the total holding costs and ordering costs.''
             results
         else if py_in ''fifo'' query_lower \<or> py_in ''first in first out'' query_lower then
           first_text_if (\<lambda>t. py_in ''fifo'' t \<or> py_in ''first-in, first-out'' t)
             ''First-In, First-Out (FIFO) is an asset-management method in which assets produced or acquired first are sold, used, or disposed of first.''
             results
         else if py_in ''safety stock'' query_lower then
           first_text_if (\<lambda>t. py_in ''safety stock'' t)
             ''Safety stock is a level of extra stock that is maintained to mitigate risk of stockouts caused by uncertainties in supply and demand.''
             results
         else if results \<noteq> [] then first_text results
         else Inr (VStr ''I don't have enough information to answer that question.''))"

text \<open>The answer returned when the search finds nothing (lines 289 to 293).\<close>

definition insufficient_answer :: pydict where
  "insufficient_answer =
     [(''answer'', VStr ''I don't have enough information to answer that question.''),
      (''sources'', VList [])]"

text \<open>
  \<open>get_answer\<close> (lines 276 to 305). The context is \<open>"\n\n".join([result["text"] for
  result in results])\<close>: the comprehension reads the key \<open>"text"\<close> of each result dict.
\<close>

definition get_answer ::
  "runtime \<Rightarrow> (string \<Rightarrow> real list) \<Rightarrow> (real list \<Rightarrow> int \<Rightarrow> error + pydict list)
     \<Rightarrow> rag_handler \<Rightarrow> string \<Rightarrow> error + pydict" where
  "get_answer rt embed_text remote_query h query =
     (case search rt embed_text remote_query h query 3 of
        Inl e \<Rightarrow> Inl e
      | Inr results \<Rightarrow>
          if results = [] then Inr insufficient_answer
          else (case collect (\<lambda>result. py_getitem result ''text'') results of
                  Inl e \<Rightarrow> Inl e
                | Inr texts \<Rightarrow>
                    (case py_join [CHR 0x0A, CHR 0x0A] texts of
                       Inl e \<Rightarrow> Inl e
                     | Inr context \<Rightarrow>
                         (case generate_mock_answer query context results of
                            Inl e \<Rightarrow> Inl e
                          | Inr answer \<Rightarrow>
                              Inr [(''answer'', answer),
                                   (''sources'', VList (map VDict results))]))))"

section \<open>QueryEngine\<close>

text \<open>
  The text a retrieved document contributes to the contexts (lines 68 to 72 of
  \<open>query_engine.py\<close>): \<open>metadata["text"]\<close> when the document has a \<open>"metadata"\<close>
  dict with that key.
\<close>

definition context_of :: "pydict \<Rightarrow> pyval option" where
  "context_of doc =
     (case map_of doc ''metadata'' of
        Some (VDict md) \<Rightarrow> map_of md ''text''
      | _ \<Rightarrow> None)"

primrec contexts_of :: "pydict list \<Rightarrow> pyval list" where
  "contexts_of [] = []"
| "contexts_of (doc # docs) =
     (case context_of doc of None \<Rightarrow> contexts_of docs | Some t \<Rightarrow> t # contexts_of docs)"

text \<open>
  The source entry of a retrieved document (lines 76 to 83): only a document whose metadata
  has a \<open>"file_name"\<close> gets one, and the entry holds the file name and the score.
\<close>

definition source_of :: "pydict \<Rightarrow> pydict option" where
  "source_of doc =
     (case map_of doc ''metadata'' of
        Some (VDict md) \<Rightarrow>
          (case map_of md ''file_name'' of
             Some name \<Rightarrow>
               Some [(''file_name'', name), (''relevance'', py_get doc ''score'' (VInt 0))]
           | None \<Rightarrow> None)
      | _ \<Rightarrow> None)"

primrec sources_of :: "pydict list \<Rightarrow> pydict list" where
  "sources_of [] = []"
| "sources_of (doc # docs) =
     (case source_of doc of None \<Rightarrow> sources_of docs | Some src \<Rightarrow> src # sources_of docs)"

text \<open>\<open>ctx[:300] + "..." if len(ctx) > 300 else ctx\<close>; \<open>len\<close> of a number is a TypeError.\<close>

definition ctx_preview :: "pyval \<Rightarrow> error + string" where
  "ctx_preview ctx =
     (case ctx of
        VStr s \<Rightarrow> Inr (if length s > 300 then py_prefix s 300 @ ''...'' else s)
      | _ \<Rightarrow> Inl TypeError)"

text \<open>The loop of lines 128 to 131 over \<open>enumerate(unique_contexts[:3])\<close>, from index \<open>i\<close>.\<close>

primrec add_previews :: "nat \<Rightarrow> pyval list \<Rightarrow> string \<Rightarrow> error + string" where
  "add_previews i [] response = Inr response"
| "add_previews i (ctx # rest) response =
     (case ctx_preview ctx of
        Inl e \<Rightarrow> Inl e
      | Inr preview \<Rightarrow>
          add_previews (Suc i) rest
            (response @ ''Document '' @ str_nat (i + 1) @ '': '' @ preview @ [CHR 0x0A, CHR 0x0A]))"

definition hashable :: "pyval \<Rightarrow> bool" where
  "hashable v = (case v of VDict _ \<Rightarrow> False | VList _ \<Rightarrow> False | _ \<Rightarrow> True)"

definition response_header :: "string \<Rightarrow> string" where
  "response_header query =
     ''Based on the uploaded documents, here's information about '' @ [CHR 0x27] @ query
       @ [CHR 0x27] @ '':'' @ [CHR 0x0A, CHR 0x0A]"


text \<open>
  \<open>generate_response\<close> (lines 106 to 133; the statements after the \<open>return\<close> of line
  133 are never executed). \<open>set_order context\<close> is \<open>list(set(context))\<close>: the elements
  of the list without repetition, in the iteration order of Python's set, which the
  language leaves open (CPython orders strings by a hash salted per process). \<open>set()\<close>
  raises TypeError on a dict or a list.
\<close>

definition generate_response ::
  "(pyval list \<Rightarrow> pyval list) \<Rightarrow> string \<Rightarrow> pyval list \<Rightarrow> error + string" where
  "generate_response set_order query context =
     (if context = [] then
        Inr ''I couldn't find any relevant information in the uploaded documents.''
      else if \<not> list_all hashable context then Inl TypeError
      else add_previews 0 (py_prefix (set_order context) 3) (response_header query))"

text \<open>\<open>_generate_response_from_docs\<close> (lines 55 to 91).\<close>

definition generate_response_from_docs ::
  "(pyval list \<Rightarrow> pyval list) \<Rightarrow> string \<Rightarrow> pydict list \<Rightarrow> error + pydict" where
  "generate_response_from_docs set_order query docs =
     (let contexts = contexts_of docs; sources = sources_of docs
      in case generate_response set_order query contexts of
           Inl e \<Rightarrow> Inl e
         | Inr answer \<Rightarrow> Inr [(''answer'', VStr answer), (''sources'', VList (map VDict sources))])"

text \<open>\<open>process_query\<close> (lines 34 to 53).\<close>

definition process_query ::
  "runtime \<Rightarrow> (pyval list \<Rightarrow> pyval list) \<Rightarrow> (string \<Rightarrow> real list)
     \<Rightarrow> (real list \<Rightarrow> int \<Rightarrow> error + pydict list) \<Rightarrow> rag_handler
     \<Rightarrow> string \<Rightarrow> int \<Rightarrow> error + pydict" where
  "process_query rt set_order embed_text remote_query h query top_k =
     (case search rt embed_text remote_query h query top_k of
        Inl e \<Rightarrow> Inl e
      | Inr relevant_docs \<Rightarrow>
          if relevant_docs \<noteq> [] \<and> \<not> mock h
          then generate_response_from_docs set_order query relevant_docs
          else get_answer rt embed_text remote_query h query)"

section \<open>DocumentProcessor: extraction and the ingestion of one document\<close>

text \<open>
  \<open>os.path.splitext(p)[1]\<close> on POSIX paths: the part of \<open>p\<close> from its last dot on,
  when that dot lies in the last path component after a character that is not a dot; the
  empty string otherwise. \<open>os.path.basename(p)\<close> is what follows the last slash.
\<close>

definition splitext_ext :: "string \<Rightarrow> string" where
  "splitext_ext p =
     (let sepIndex = py_rfind (CHR ''/'') p 0 (int (length p));
          dotIndex = py_rfind (CHR ''.'') p 0 (int (length p))
      in if dotIndex > sepIndex
            \<and> list_ex (\<lambda>c. c \<noteq> CHR ''.'') (py_slice p (sepIndex + 1) dotIndex)
         then drop (nat dotIndex) p
         else [])"

definition basename :: "string \<Rightarrow> string" where
  "basename p = drop (nat (py_rfind (CHR ''/'') p 0 (int (length p)) + 1)) p"

definition supported_extensions :: "string list" where
  "supported_extensions = [''.txt'', ''.csv'', ''.pdf'', ''.docx'', ''.xlsx'']"

text \<open>\<open>is_supported_file\<close> (lines 35 to 46 of \<open>document_processor.py\<close>).\<close>

definition is_supported_file :: "string \<Rightarrow> bool" where
  "is_supported_file file_path = (py_lower (splitext_ext file_path) \<in> set supported_extensions)"

text \<open>
  \<open>extract_text\<close> (lines 48 to 93). The file system is a parameter:
  \<^item> \<open>read_text path\<close> is the outcome of opening \<open>path\<close> and reading it whole (lines 64
    and 65): the content, or the exception raised;
  \<^item> \<open>read_csv path\<close> is the outcome of \<open>pd.read_csv(path).head(1000).to_string()\<close>
    (lines 75 and 76).
  Both reads stand in a \<open>try\<close> whose handler catches every \<open>Exception\<close>, prints it and
  returns the empty string. \<open>max_text_chars\<close> is the attribute of that name.
\<close>

definition extract_text ::
  "(string \<Rightarrow> error + string) \<Rightarrow> (string \<Rightarrow> error + string) \<Rightarrow> int \<Rightarrow> string
     \<Rightarrow> error + string" where
  "extract_text read_text read_csv max_text_chars file_path =
     (let ext = py_lower (splitext_ext file_path)
      in if ext = ''.txt'' then
           (case read_text file_path of
              Inr text \<Rightarrow> Inr (py_prefix text max_text_chars)
            | Inl e \<Rightarrow> Inr [])
         else if ext = ''.csv'' then
           (case read_csv file_path of
              Inr text \<Rightarrow> Inr (py_prefix text max_text_chars)
            | Inl e \<Rightarrow> Inr [])
         else if ext = ''.pdf'' then Inr (''Mock PDF content from '' @ basename file_path)
         else if ext = ''.docx'' then Inr (''Mock DOCX content from '' @ basename file_path)
         else if ext = ''.xlsx'' then Inr (''Mock Excel content from '' @ basename file_path)
         else Inr [])"

text \<open>
  \<open>embed_chunks\<close> (lines 142 to 160): \<open>encode_batch\<close> is the batched call of the
  embedding model, or the exception it raised; \<open>encode\<close> embeds one chunk.
\<close>

definition embed_chunks ::
  "(string list \<Rightarrow> error + real list list) \<Rightarrow> (string \<Rightarrow> real list) \<Rightarrow> string list
     \<Rightarrow> real list list" where
  "embed_chunks encode_batch encode chunks =
     (if chunks = [] then []
      else (case encode_batch chunks of
              Inr embeddings \<Rightarrow> embeddings
            | Inl e \<Rightarrow> map encode chunks))"

text \<open>A processed chunk: the dict \<open>{"id", "text", "embedding", "metadata"}\<close> of lines 201 to 209.\<close>

record doc_chunk =
  chunk_id :: string
  chunk_body :: string
  embedding :: "real list"
  chunk_metadata :: pydict

text \<open>
  The loop of lines 199 to 209 over \<open>enumerate(zip(chunks, embeddings))\<close>, from index
  \<open>i\<close>; \<open>uuid4 i\<close> is the identifier generated for the chunk of index \<open>i\<close>.
\<close>

primrec document_chunks ::
  "(nat \<Rightarrow> string) \<Rightarrow> pydict \<Rightarrow> nat \<Rightarrow> (string \<times> real list) list \<Rightarrow> doc_chunk list" where
  "document_chunks uuid4 md i [] = []"
| "document_chunks uuid4 md i (p # ps) =
     \<lparr>chunk_id = uuid4 i, chunk_body = fst p, embedding = snd p,
      chunk_metadata = AList.update ''chunk_index'' (VInt (int i)) md\<rparr>
       # document_chunks uuid4 md (Suc i) ps"

text \<open>
  \<open>process_document\<close> (lines 162 to 211); \<open>chunk_text\<close> is called with its defaults, a
  chunk size of 1000 and an overlap of 200. The result is \<open>None\<close> if the chunking does
  not return, \<open>Some (Inl e)\<close> if an exception is raised. Each chunk gets a dict of its
  own (\<open>{**metadata, "chunk_index": i}\<close>). Line 191 also writes the three file keys into
  the caller's dict; that effect on the caller is not part of the returned value and is not
  modelled.
\<close>

definition process_document ::
  "(string \<Rightarrow> error + string) \<Rightarrow> (string \<Rightarrow> error + string) \<Rightarrow> int \<Rightarrow> int
     \<Rightarrow> (string list \<Rightarrow> error + real list list) \<Rightarrow> (string \<Rightarrow> real list) \<Rightarrow> (nat \<Rightarrow> string)
     \<Rightarrow> string \<Rightarrow> pydict option \<Rightarrow> (error + doc_chunk list) option" where
  "process_document read_text read_csv max_text_chars max_chunks encode_batch encode uuid4
       file_path md =
     (if \<not> is_supported_file file_path then Some (Inr [])
      else (case extract_text read_text read_csv max_text_chars file_path of
              Inl e \<Rightarrow> Some (Inl e)
            | Inr text \<Rightarrow>
                if text = [] then Some (Inr [])
                else (case chunk_text max_chunks text 1000 200 of
                        None \<Rightarrow> None
                      | Some chunks \<Rightarrow>
                          (let embeddings = embed_chunks encode_batch encode chunks;
                               md1 = (case md of None \<Rightarrow> [] | Some m \<Rightarrow> m);
                               md2 = AList.update ''file_name'' (VStr (basename file_path)) md1;
                               md3 = AList.update ''file_path'' (VStr file_path) md2;
                               md4 = AList.update ''file_type''
                                       (VStr (py_lower (splitext_ext file_path))) md3
                           in Some (Inr (document_chunks uuid4 md4 0 (zip chunks embeddings)))))))"

section \<open>The chunking loop returns\<close>

text \<open>
  Every iteration that goes on increments \<open>count\<close>, and the loop condition bounds it by
  \<open>max_chunks\<close>: the loop returns from every state, with at most \<open>max_chunks - count\<close>
  chunks added.
\<close>

lemma chunk_loop_returns:
  "\<exists>cs. chunk_loop mc T sz ov start cnt acc = Some cs \<and>
        int (length cs) \<le> int (length acc) + max 0 (mc - cnt)"
proof (induction "nat (mc - cnt)" arbitrary: start cnt acc)
  case 0
  then have "\<not> cnt < mc" by simp
  then show ?case by (subst chunk_loop.simps) simp
next
  case (Suc k)
  then have lt: "cnt < mc" by linarith
  show ?case
  proof (cases "start < int (length T) \<and> window_end T sz start > start")
    case True
    from Suc(2) have k: "k = nat (mc - (cnt + 1))" by linarith
    from Suc(1)[OF k, of "window_end T sz start - ov" "acc @ [py_slice T start (window_end T sz start)]"]
    obtain cs where cs: "chunk_loop mc T sz ov (window_end T sz start - ov) (cnt + 1)
        (acc @ [py_slice T start (window_end T sz start)]) = Some cs"
      and len: "int (length cs) \<le> int (length (acc @ [py_slice T start (window_end T sz start)])) + max 0 (mc - (cnt + 1))"
      by blast
    have "chunk_loop mc T sz ov start cnt acc = Some cs"
      using True lt cs by (subst chunk_loop.simps) (simp add: Let_def)
    moreover have "int (length cs) \<le> int (length acc) + max 0 (mc - cnt)"
      using len lt by simp
    ultimately show ?thesis by blast
  next
    case False
    then have "chunk_loop mc T sz ov start cnt acc = Some acc"
      by (subst chunk_loop.simps) (auto simp add: Let_def)
    then show ?thesis by simp
  qed
qed

text \<open>
  C9. For every text, chunk size, overlap and chunk cap, \<open>chunk_text\<close> returns (the
  loop cannot run forever), and what it returns is a list of at most \<open>max_chunks\<close>
  chunks (none when the cap is not positive).
\<close>

theorem chunk_text_terminates:
  "\<exists>chunks. chunk_text max_chunks text chunk_size overlap = Some chunks \<and>
       int (length chunks) \<le> max 0 max_chunks"
proof (cases "text = []")
  case True
  then show ?thesis by (simp add: chunk_text_def)
next
  case False
  obtain cs where "chunk_loop max_chunks text chunk_size
      (if overlap \<ge> chunk_size then max 0 (chunk_size div 2) else overlap) 0 0 [] = Some cs"
    and "int (length cs) \<le> int (length ([]::string list)) + max 0 (max_chunks - 0)"
    using chunk_loop_returns by blast
  then show ?thesis using False by (simp add: chunk_text_def Let_def)
qed

theorem chunk_text_terminates_witness:
  "chunk_text 4 ''ab cd ef'' 3 5 = Some [''ab '', '' cd'', ''d '', '' ef'']"
proof -
  have "\<exists>chunks. chunk_text 4 ''ab cd ef'' 3 5 = Some chunks \<and> int (length chunks) \<le> max 0 4"
    by (rule chunk_text_terminates)
  moreover have "chunk_text 4 ''ab cd ef'' 3 5 = Some [''ab '', '' cd'', ''d '', '' ef'']"
    by code_simp
  ultimately show ?thesis by simp
qed

lemma chunk_text_returns:
  "\<exists>chunks. chunk_text mc T sz ov = Some chunks \<and> int (length chunks) \<le> max 0 mc"
proof (cases "T = []")
  case True
  then show ?thesis by (simp add: chunk_text_def)
next
  case False
  obtain cs where "chunk_loop mc T sz (if ov \<ge> sz then max 0 (sz div 2) else ov) 0 0 [] = Some cs"
    and "int (length cs) \<le> int (length ([]::string list)) + max 0 (mc - 0)"
    using chunk_loop_returns by blast
  then show ?thesis using False by (simp add: chunk_text_def Let_def)
qed

section \<open>An overlap that is not below the chunk size\<close>

text \<open>
  An overlap at or above the chunk size is replaced by \<open>max(0, chunk_size // 2)\<close>, and
  \<open>chunk_size // 2\<close> given as overlap leads to the same value: it is either below the
  chunk size and not negative, or replaced in turn.
\<close>

lemma chunk_text_reclamp:
  assumes "overlap \<ge> chunk_size"
  shows "chunk_text mc T chunk_size overlap = chunk_text mc T chunk_size (chunk_size div 2)"
proof (cases "chunk_size div 2 \<ge> chunk_size")
  case True
  then show ?thesis using assms by (simp add: chunk_text_def Let_def)
next
  case False
  then have "0 \<le> chunk_size div 2" by linarith
  then show ?thesis using assms False by (simp add: chunk_text_def Let_def max_def)
qed

text \<open>
  C8. When \<open>overlap \<ge> chunk_size\<close>, \<open>chunk_text\<close> does not fail: it returns, and what
  it returns is what \<open>chunk_text\<close> returns for the overlap \<open>chunk_size // 2\<close>, namely
  the result of the loop run with the overlap \<open>max(0, chunk_size // 2)\<close>.
\<close>

theorem chunk_text_clamps_overlap:
  assumes "overlap \<ge> chunk_size"
  shows "\<exists>chunks. chunk_text max_chunks text chunk_size overlap = Some chunks
           \<and> chunk_text max_chunks text chunk_size (chunk_size div 2) = Some chunks
           \<and> (text \<noteq> [] \<longrightarrow>
                chunk_loop max_chunks text chunk_size (max 0 (chunk_size div 2)) 0 0 [] = Some chunks)"
proof -
  obtain chunks where c: "chunk_text max_chunks text chunk_size overlap = Some chunks"
    using chunk_text_returns by blast
  moreover have "chunk_text max_chunks text chunk_size (chunk_size div 2) = Some chunks"
    using c chunk_text_reclamp[OF assms] by simp
  moreover have "text \<noteq> [] \<longrightarrow>
      chunk_loop max_chunks text chunk_size (max 0 (chunk_size div 2)) 0 0 [] = Some chunks"
    using c assms by (auto simp add: chunk_text_def Let_def)
  ultimately show ?thesis by blast
qed

theorem chunk_text_clamps_overlap_witness:
  "chunk_text 4 ''ab cd ef'' 3 5 = Some [''ab '', '' cd'', ''d '', '' ef'']
     \<and> chunk_text 4 ''ab cd ef'' 3 (3 div 2) = Some [''ab '', '' cd'', ''d '', '' ef'']"
proof -
  have h: "(5::int) \<ge> 3" by simp
  have v: "chunk_text 4 ''ab cd ef'' 3 5 = Some [''ab '', '' cd'', ''d '', '' ef'']" by code_simp
  from chunk_text_clamps_overlap[OF h, of 4 "''ab cd ef''"] v show ?thesis by auto
qed

section \<open>An index without records\<close>

lemma mock_search_empty: "mock_search rt ds [] qv top_k = Inr []"
  by (simp add: mock_search_def sort_desc_def insertion_desc_def py_prefix_def)

text \<open>
  The store of a handler in mock mode becomes empty when its records are deleted; deleting
  an identifier that is not in the store changes nothing.
\<close>

lemma delete_only_record:
  "delete_document \<lparr>mock = True, mock_vectors = Some [d], dicts = ds, next_dict = n\<rparr> (doc_id d)
     = Inr (\<lparr>mock = True, mock_vectors = Some [], dicts = ds, next_dict = n\<rparr>, True)"
  by (simp add: delete_document_def)

lemma delete_absent_record:
  assumes "mock h" "mock_vectors h = Some docs" "\<forall>d\<in>set docs. doc_id d \<noteq> target"
  shows "delete_document h target = Inr (h, True)"
proof -
  have "filter (\<lambda>doc. doc_id doc \<noteq> target) docs = docs" using assms(3) by (simp add: filter_id_conv)
  then show ?thesis using assms(1,2) by (simp add: delete_document_def)
qed

text \<open>
  C7. The local search over an empty store returns the empty list, for every query vector
  and every \<open>top_k\<close>. A handler in mock mode whose store is empty finds nothing, and
  \<open>get_answer\<close> then returns the insufficient-information answer with an empty list of
  sources; so does a handler in remote mode when the remote query has no match.
\<close>

theorem empty_index_no_results:
  shows "mock_search rt ds [] query_vector top_k = Inr []
     \<and> (mock h \<and> mock_vectors h = Some [] \<longrightarrow>
          search rt embed_text remote_query h query top_k = Inr []
          \<and> get_answer rt embed_text remote_query h query =
              Inr [(''answer'', VStr ''I don't have enough information to answer that question.''),
                   (''sources'', VList [])])
     \<and> (\<not> mock h \<and> remote_query (embed_text query) 3 = Inr [] \<longrightarrow>
          get_answer rt embed_text remote_query h query =
              Inr [(''answer'', VStr ''I don't have enough information to answer that question.''),
                   (''sources'', VList [])])"
  by (simp add: mock_search_empty search_def handler_mock_search_def get_answer_def
      insufficient_answer_def Let_def)

theorem empty_index_no_results_witness:
  "mock_search exact_runtime (\<lambda>_. []) [] [1, 0] 5 = Inr []
   \<and> search exact_runtime (\<lambda>_. [1, 0]) (\<lambda>_ _. Inl ValueError)
        \<lparr>mock = True, mock_vectors = Some [], dicts = (\<lambda>_. []), next_dict = 0\<rparr> ''inventory'' 5 = Inr []
   \<and> get_answer exact_runtime (\<lambda>_. [1, 0]) (\<lambda>_ _. Inl ValueError)
        \<lparr>mock = True, mock_vectors = Some [], dicts = (\<lambda>_. []), next_dict = 0\<rparr> ''inventory'' =
        Inr [(''answer'', VStr ''I don't have enough information to answer that question.''),
             (''sources'', VList [])]
   \<and> get_answer exact_runtime (\<lambda>_. [1, 0]) (\<lambda>_ _. Inr [])
        \<lparr>mock = False, mock_vectors = None, dicts = (\<lambda>_. []), next_dict = 0\<rparr> ''inventory'' =
        Inr [(''answer'', VStr ''I don't have enough information to answer that question.''),
             (''sources'', VList [])]"
  using empty_index_no_results[of exact_runtime "\<lambda>_. []" "[1, 0]" 5
      "\<lparr>mock = True, mock_vectors = Some [], dicts = (\<lambda>_. []), next_dict = 0\<rparr>"
      "\<lambda>_. [1, 0]" "\<lambda>_ _. Inl ValueError" "''inventory''"]
    empty_index_no_results[of exact_runtime "\<lambda>_. []" "[1, 0]" 5
      "\<lparr>mock = False, mock_vectors = None, dicts = (\<lambda>_. []), next_dict = 0\<rparr>"
      "\<lambda>_. [1, 0]" "\<lambda>_ _. Inr []" "''inventory''"]
  by simp

section \<open>Cosine similarity with a vector of norm zero\<close>

lemma all_zero_iff: "list_all (\<lambda>x. x = 0) v \<longleftrightarrow> (\<forall>x\<in>set v. x = (0::real))"
  by (simp add: list_all_iff)

text \<open>
  The product of the two norms is zero or NaN as soon as one norm is zero, and a quotient
  by zero or by NaN is never a number.
\<close>

lemma multiply_zero_left: "np_multiply rt (Fin 0) n = Fin 0 \<or> np_multiply rt (Fin 0) n = NaN"
  by (cases n) auto

lemma multiply_zero_right: "np_multiply rt n (Fin 0) = Fin 0 \<or> np_multiply rt n (Fin 0) = NaN"
  by (cases n) auto

lemma truediv_by_zero_not_number:
  assumes "d = Fin 0 \<or> d = NaN"
  shows "np_truediv rt x d \<noteq> Fin r"
  using assms by (cases x) (auto split: if_splits)

lemma truediv_zero_by_zero:
  assumes "d = Fin 0 \<or> d = NaN"
  shows "np_truediv rt (Fin 0) d = NaN"
  using assms by auto

lemma np_norm_all_zero: "\<forall>x\<in>set v. x = 0 \<Longrightarrow> np_norm rt v = Fin 0"
  by (simp add: np_norm_def all_zero_iff)

lemma cosine_zero_norm_not_number:
  assumes "np_norm rt vec1 = Fin 0 \<or> np_norm rt vec2 = Fin 0"
  shows "cosine_similarity rt vec1 vec2 \<noteq> Inr (Fin r)"
proof -
  have "np_multiply rt (np_norm rt vec1) (np_norm rt vec2) = Fin 0
      \<or> np_multiply rt (np_norm rt vec1) (np_norm rt vec2) = NaN"
    using assms multiply_zero_left[of rt "np_norm rt vec2"]
      multiply_zero_right[of rt "np_norm rt vec1"] by auto
  then show ?thesis
    using truediv_by_zero_not_number
    by (auto simp: cosine_similarity_def split: sum.splits)
qed

lemma cosine_all_zero:
  assumes "(\<forall>x\<in>set vec1. x = 0) \<or> (\<forall>x\<in>set vec2. x = 0)"
  shows "cosine_similarity rt vec1 vec2
           = (if length vec1 = length vec2 then Inr NaN else Inl ValueError)"
proof (cases "length vec1 = length vec2")
  case False
  then show ?thesis by (simp add: cosine_similarity_def np_dot_def)
next
  case True
  have d: "np_dot rt vec1 vec2 = Inr (Fin 0)"
    using assms True by (auto simp: np_dot_def all_zero_iff)
  have "np_norm rt vec1 = Fin 0 \<or> np_norm rt vec2 = Fin 0"
    using assms np_norm_all_zero by blast
  then have "np_multiply rt (np_norm rt vec1) (np_norm rt vec2) = Fin 0
      \<or> np_multiply rt (np_norm rt vec1) (np_norm rt vec2) = NaN"
    using multiply_zero_left[of rt "np_norm rt vec2"]
      multiply_zero_right[of rt "np_norm rt vec1"] by auto
  then have "np_truediv rt (Fin 0) (np_multiply rt (np_norm rt vec1) (np_norm rt vec2)) = NaN"
    by (rule truediv_zero_by_zero)
  with d True show ?thesis by (simp add: cosine_similarity_def)
qed

lemma similarities_same_length:
  assumes "\<forall>d\<in>set store. length (vector d) = length qv"
  shows "\<exists>sims. similarities rt qv store = Inr sims \<and> map fst sims = store
      \<and> (\<forall>p\<in>set sims. cosine_similarity rt qv (vector (fst p)) = Inr (snd p))"
  using assms
proof (induction store)
  case Nil
  then show ?case by simp
next
  case (Cons d store)
  then obtain sims where s: "similarities rt qv store = Inr sims" "map fst sims = store"
     "\<forall>p\<in>set sims. cosine_similarity rt qv (vector (fst p)) = Inr (snd p)" by auto
  from Cons.prems have "length qv = length (vector d)" by simp
  then obtain x where x: "cosine_similarity rt qv (vector d) = Inr x"
    by (simp add: cosine_similarity_def np_dot_def)
  show ?case using s x by simp
qed

text \<open>
  C10. The division of \<open>_cosine_similarity\<close> has no guard. When one of the two vectors
  holds zeros only (its norm is zero), the score is NaN, the value of \<open>0.0 / 0.0\<close> (when
  the lengths differ \<open>np.dot\<close> has raised before the division); and whenever a computed
  norm is zero the score is not a number, whatever the rounding. In the local search over a
  store whose vectors have the length of the query vector, a record whose vector holds
  zeros only gets the score NaN, and so does every record when the query vector does.
\<close>

theorem zero_norm_similarity_undefined:
  shows "((\<forall>x\<in>set vec1. x = 0) \<or> (\<forall>x\<in>set vec2. x = 0) \<longrightarrow>
           cosine_similarity rt vec1 vec2
             = (if length vec1 = length vec2 then Inr NaN else Inl ValueError))
       \<and> (np_norm rt vec1 = Fin 0 \<or> np_norm rt vec2 = Fin 0 \<longrightarrow>
           (\<forall>r. cosine_similarity rt vec1 vec2 \<noteq> Inr (Fin r)))
       \<and> ((\<forall>d\<in>set store. length (vector d) = length query_vector) \<and> doc \<in> set store
            \<and> ((\<forall>x\<in>set query_vector. x = 0) \<or> (\<forall>x\<in>set (vector doc). x = 0)) \<longrightarrow>
           (\<exists>sims. similarities rt query_vector store = Inr sims \<and> (doc, NaN) \<in> set sims))"
proof -
  have 1: "(\<forall>x\<in>set vec1. x = 0) \<or> (\<forall>x\<in>set vec2. x = 0) \<longrightarrow>
           cosine_similarity rt vec1 vec2
             = (if length vec1 = length vec2 then Inr NaN else Inl ValueError)"
    using cosine_all_zero by blast
  have 2: "np_norm rt vec1 = Fin 0 \<or> np_norm rt vec2 = Fin 0 \<longrightarrow>
           (\<forall>r. cosine_similarity rt vec1 vec2 \<noteq> Inr (Fin r))"
    using cosine_zero_norm_not_number by blast
  have 3: "(\<forall>d\<in>set store. length (vector d) = length query_vector) \<and> doc \<in> set store
            \<and> ((\<forall>x\<in>set query_vector. x = 0) \<or> (\<forall>x\<in>set (vector doc). x = 0)) \<longrightarrow>
           (\<exists>sims. similarities rt query_vector store = Inr sims \<and> (doc, NaN) \<in> set sims)"
  proof (intro impI, elim conjE)
    assume len: "\<forall>d\<in>set store. length (vector d) = length query_vector"
      and mem: "doc \<in> set store"
      and z: "(\<forall>x\<in>set query_vector. x = 0) \<or> (\<forall>x\<in>set (vector doc). x = 0)"
    from similarities_same_length[OF len] obtain sims where
      s: "similarities rt query_vector store = Inr sims" "map fst sims = store"
      "\<forall>p\<in>set sims. cosine_similarity rt query_vector (vector (fst p)) = Inr (snd p)" by blast
    from mem s(2) obtain p where p: "p \<in> set sims" "fst p = doc" by force
    have "cosine_similarity rt query_vector (vector doc) = Inr NaN"
      using cosine_all_zero[OF z] len mem by simp
    with s(3) p have "snd p = NaN" by auto
    with p have "(doc, NaN) \<in> set sims" by (metis prod.collapse)
    with s(1) show "\<exists>sims. similarities rt query_vector store = Inr sims \<and> (doc, NaN) \<in> set sims"
      by blast
  qed
  from 1 2 3 show ?thesis by blast
qed

theorem zero_norm_similarity_undefined_witness:
  "cosine_similarity exact_runtime [0, 0] [3, 4] = Inr NaN
   \<and> similarities exact_runtime [0, 0] [\<lparr>doc_id = ''a'', vector = [3, 4], metadata = 0\<rparr>]
       = Inr [(\<lparr>doc_id = ''a'', vector = [3, 4], metadata = 0\<rparr>, NaN)]"
proof -
  have z: "\<forall>x\<in>set [0, 0::real]. x = 0" by simp
  have "cosine_similarity exact_runtime [0, 0] [3, 4] = Inr NaN"
    using zero_norm_similarity_undefined[of "[0, 0]" "[3, 4]" exact_runtime] z by simp
  moreover have "similarities exact_runtime [0, 0] [\<lparr>doc_id = ''a'', vector = [3, 4], metadata = 0\<rparr>]
       = Inr [(\<lparr>doc_id = ''a'', vector = [3, 4], metadata = 0\<rparr>, NaN)]"
    using calculation by simp
  ultimately show ?thesis by simp
qed

section \<open>get\_answer on a search that finds something\<close>

text \<open>
  The result dicts of \<open>search\<close> have the keys \<open>"id"\<close>, \<open>"score"\<close> and \<open>"metadata"\<close>,
  in both modes: the text of a record is an entry of its metadata, not of the result.
\<close>

lemma search_result_no_text: "map_of (search_result ds p) ''text'' = None"
  by (simp add: search_result_def)

lemma match_result_no_text: "map_of (match_result m) ''text'' = None"
  by (simp add: match_result_def)

lemma mock_search_no_text:
  "mock_search rt ds docs qv k = Inr results \<Longrightarrow> \<forall>res\<in>set results. map_of res ''text'' = None"
  by (auto simp: mock_search_def search_result_no_text split: sum.splits)

lemma search_no_text:
  assumes "search rt embed_text remote_query h query top_k = Inr results"
  shows "\<forall>res\<in>set results. map_of res ''text'' = None"
proof (cases "\<not> mock h \<and> (\<exists>ms. remote_query (embed_text query) top_k = Inr ms)")
  case True
  then obtain ms where "remote_query (embed_text query) top_k = Inr ms" by blast
  with True assms have "results = map match_result ms" by (simp add: search_def Let_def)
  then show ?thesis by (simp add: match_result_no_text)
next
  case False
  then have "search rt embed_text remote_query h query top_k
      = handler_mock_search rt h (embed_text query) top_k"
    by (auto simp: search_def Let_def split: sum.splits)
  with assms have "handler_mock_search rt h (embed_text query) top_k = Inr results" by simp
  then show ?thesis
    by (auto simp: handler_mock_search_def split: option.splits dest: mock_search_no_text)
qed

lemma collect_text_raises:
  assumes "results \<noteq> []" "\<forall>res\<in>set results. map_of res ''text'' = None"
  shows "collect (\<lambda>result. py_getitem result ''text'') results = Inl (KeyError ''text'')"
  using assms by (cases results) (simp_all add: py_getitem_def)

lemma get_answer_key_error:
  assumes "search rt embed_text remote_query h query 3 = Inr results" "results \<noteq> []"
  shows "get_answer rt embed_text remote_query h query = Inl (KeyError ''text'')"
  using assms collect_text_raises[OF assms(2) search_no_text[OF assms(1)]]
  by (simp add: get_answer_def)

text \<open>
  C2. Whenever the search of \<open>get_answer\<close> finds at least one record, \<open>get_answer\<close>
  raises \<open>KeyError('text')\<close>: it returns neither an answer nor sources. In mock mode
  \<open>process_query\<close> ends in \<open>get_answer\<close> and raises the same error.
\<close>

theorem get_answer_raises_on_results:
  assumes "search rt embed_text remote_query h query 3 = Inr results" "results \<noteq> []"
  shows "get_answer rt embed_text remote_query h query = Inl (KeyError ''text'')
     \<and> (mock h \<and> search rt embed_text remote_query h query top_k = Inr docs \<longrightarrow>
          process_query rt set_order embed_text remote_query h query top_k
            = Inl (KeyError ''text''))"
  using get_answer_key_error[OF assms] by (simp add: process_query_def)

theorem get_answer_raises_on_results_witness:
  "search exact_runtime (\<lambda>_. [1]) (\<lambda>_ _. Inl ValueError)
       \<lparr>mock = True, mock_vectors = Some [\<lparr>doc_id = ''c1'', vector = [1], metadata = 0\<rparr>],
        dicts = (\<lambda>_. [])(0 := [(''text'', VStr ''inventory turnover'')]), next_dict = 1\<rparr>
       ''inventory turnover'' 3
     = Inr [[(''id'', VStr ''c1''), (''score'', VFloat (Fin 1)),
             (''metadata'', VDict [(''text'', VStr ''inventory turnover'')])]]
   \<and> get_answer exact_runtime (\<lambda>_. [1]) (\<lambda>_ _. Inl ValueError)
       \<lparr>mock = True, mock_vectors = Some [\<lparr>doc_id = ''c1'', vector = [1], metadata = 0\<rparr>],
        dicts = (\<lambda>_. [])(0 := [(''text'', VStr ''inventory turnover'')]), next_dict = 1\<rparr>
       ''inventory turnover''
     = Inl (KeyError ''text'')
   \<and> process_query exact_runtime remdups (\<lambda>_. [1]) (\<lambda>_ _. Inl ValueError)
       \<lparr>mock = True, mock_vectors = Some [\<lparr>doc_id = ''c1'', vector = [1], metadata = 0\<rparr>],
        dicts = (\<lambda>_. [])(0 := [(''text'', VStr ''inventory turnover'')]), next_dict = 1\<rparr>
       ''inventory turnover'' 5
     = Inl (KeyError ''text'')"
proof -
  let ?h = "\<lparr>mock = True, mock_vectors = Some [\<lparr>doc_id = ''c1'', vector = [1], metadata = 0\<rparr>],
        dicts = (\<lambda>_. [])(0 := [(''text'', VStr ''inventory turnover'')]), next_dict = 1\<rparr>"
  let ?res = "[[(''id'', VStr ''c1''), (''score'', VFloat (Fin 1)),
             (''metadata'', VDict [(''text'', VStr ''inventory turnover'')])]]"
  have s: "\<And>k. 0 < k \<Longrightarrow> search exact_runtime (\<lambda>_. [1]) (\<lambda>_ _. Inl ValueError) ?h
               ''inventory turnover'' k = Inr ?res"
    by (simp add: search_def handler_mock_search_def mock_search_def cosine_similarity_def
        np_dot_def np_norm_def exact_runtime_def sort_desc_def insertion_desc_def py_prefix_def
        slice_index_def search_result_def)
  have s3: "search exact_runtime (\<lambda>_. [1]) (\<lambda>_ _. Inl ValueError) ?h ''inventory turnover'' 3
      = Inr ?res"
    by (rule s) simp
  have s5: "search exact_runtime (\<lambda>_. [1]) (\<lambda>_ _. Inl ValueError) ?h ''inventory turnover'' 5
      = Inr ?res"
    by (rule s) simp
  have ne: "?res \<noteq> []" by simp
  from get_answer_raises_on_results[OF s3 ne, of 5 ?res remdups] s3 s5
  show ?thesis by simp
qed

text \<open>
  In remote mode \<open>process_query\<close> answers from the matches, and a source entry holds a
  file name and a relevance only: no source carries the identifier of a record.
\<close>

lemma process_query_remote:
  assumes "\<not> mock h" "remote_query (embed_text query) top_k = Inr matches" "matches \<noteq> []"
  shows "process_query rt set_order embed_text remote_query h query top_k
           = generate_response_from_docs set_order query (map match_result matches)"
  using assms by (simp add: process_query_def search_def Let_def)

lemma source_of_keys: "source_of doc = Some src \<Longrightarrow> map fst src = [''file_name'', ''relevance'']"
  by (auto simp: source_of_def split: option.splits pyval.splits)

lemma sources_of_keys: "\<forall>src\<in>set (sources_of docs). map fst src = [''file_name'', ''relevance'']"
  by (induction docs) (auto split: option.splits dest: source_of_keys)

section \<open>Extraction when reading the file fails\<close>

lemma extract_text_returns: "\<exists>text. extract_text read_text read_csv max_text_chars file_path = Inr text"
  by (auto simp: extract_text_def Let_def split: sum.splits)

lemma supported_txt_csv:
  "py_lower (splitext_ext p) = ''.txt'' \<or> py_lower (splitext_ext p) = ''.csv''
     \<Longrightarrow> is_supported_file p"
  by (auto simp: is_supported_file_def supported_extensions_def)

text \<open>
  The claim C4 as stated fails: with a read that raises, \<open>extract_text\<close> on a
  \<open>.txt\<close> file returns the empty string and raises nothing.
\<close>

theorem extract_text_read_error_counterexample:
  "extract_text (\<lambda>_. Inl IOError) (\<lambda>_. Inl IOError) 1000000 ''notes.txt'' = Inr []
   \<and> extract_text (\<lambda>_. Inl IOError) (\<lambda>_. Inl IOError) 1000000 ''notes.txt'' \<noteq> Inl IOError"
proof -
  have "py_lower (splitext_ext ''notes.txt'') = ''.txt''" by code_simp
  then show ?thesis by (simp add: extract_text_def)
qed

text \<open>
  C4, amended. \<open>extract_text\<close> never raises. A read of a \<open>.txt\<close> or \<open>.csv\<close> file that
  fails is caught: \<open>extract_text\<close> returns the empty string, and \<open>process_document\<close>
  returns no chunk for that file, so nothing of it is indexed.
\<close>

theorem extract_text_swallows_read_error:
  assumes "(py_lower (splitext_ext file_path) = ''.txt'' \<and> read_text file_path = Inl e)
         \<or> (py_lower (splitext_ext file_path) = ''.csv'' \<and> read_csv file_path = Inl e)"
  shows "extract_text read_text read_csv max_text_chars file_path = Inr []
     \<and> process_document read_text read_csv max_text_chars max_chunks encode_batch encode uuid4
          file_path md = Some (Inr [])
     \<and> (\<forall>path. \<exists>text. extract_text read_text read_csv max_text_chars path = Inr text)"
proof -
  have x: "extract_text read_text read_csv max_text_chars file_path = Inr []"
    using assms by (auto simp: extract_text_def Let_def)
  have "is_supported_file file_path" using assms supported_txt_csv by blast
  then have "process_document read_text read_csv max_text_chars max_chunks encode_batch encode
      uuid4 file_path md = Some (Inr [])"
    using x by (simp add: process_document_def)
  with x extract_text_returns show ?thesis by blast
qed

theorem extract_text_swallows_read_error_witness:
  "extract_text (\<lambda>_. Inl IOError) (\<lambda>_. Inr ''a,b'') 1000000 ''notes.txt'' = Inr []
   \<and> process_document (\<lambda>_. Inl IOError) (\<lambda>_. Inr ''a,b'') 1000000 5000 (\<lambda>_. Inl ValueError)
        (\<lambda>_. [1]) (\<lambda>_. ''u'') ''notes.txt'' None = Some (Inr [])"
proof -
  have "py_lower (splitext_ext ''notes.txt'') = ''.txt''" by code_simp
  then have "(py_lower (splitext_ext ''notes.txt'') = ''.txt'' \<and> (\<lambda>_. Inl IOError) ''notes.txt'' = (Inl IOError :: error + string))
         \<or> (py_lower (splitext_ext ''notes.txt'') = ''.csv'' \<and> (\<lambda>_. Inr ''a,b'') ''notes.txt'' = (Inl IOError :: error + string))"
    by simp
  from extract_text_swallows_read_error[OF this, of 1000000 5000 "\<lambda>_. Inl ValueError" "\<lambda>_. [1]" "\<lambda>_. ''u''" None]
  show ?thesis by simp
qed

section \<open>Adding a document twice\<close>


text \<open>
  The record holds the caller's dict and not a copy of it: a second call with the same
  dict and another text rewrites the text that the first record refers to.
\<close>

lemma add_document_shares_metadata:
  "add_document (\<lambda>_. [1]) ''id1''
       \<lparr>mock = True, mock_vectors = Some [], dicts = (\<lambda>_. []), next_dict = 1\<rparr> ''one'' (Some 0)
     = Inr (\<lparr>mock = True, mock_vectors = Some [\<lparr>doc_id = ''id1'', vector = [1], metadata = 0\<rparr>],
             dicts = (\<lambda>_. [])(0 := [(''text'', VStr ''one'')]), next_dict = 1\<rparr>, ''id1'')
   \<and> add_document (\<lambda>_. [1]) ''id2''
       \<lparr>mock = True, mock_vectors = Some [\<lparr>doc_id = ''id1'', vector = [1], metadata = 0\<rparr>],
        dicts = (\<lambda>_. [])(0 := [(''text'', VStr ''one'')]), next_dict = 1\<rparr> ''two'' (Some 0)
     = Inr (\<lparr>mock = True, mock_vectors = Some [\<lparr>doc_id = ''id1'', vector = [1], metadata = 0\<rparr>,
                                                \<lparr>doc_id = ''id2'', vector = [1], metadata = 0\<rparr>],
             dicts = (\<lambda>_. [])(0 := [(''text'', VStr ''two'')]), next_dict = 1\<rparr>, ''id2'')"
  by (simp add: add_document_def)



section \<open>Answer synthesis from retrieved documents\<close>

lemma py_prefix_take: "0 \<le> k \<Longrightarrow> py_prefix xs k = take (nat k) xs"
  by (simp add: py_prefix_def slice_index_def min_def)



lemma sources_of_filter: "map Some (sources_of docs) = filter (\<lambda>src. src \<noteq> None) (map source_of docs)"
  by (induction docs) (auto split: option.splits)



text \<open>
  The order of the excerpts is the iteration order of a Python set: with an order that
  enumerates the set from its last element, the second retrieved text comes first.
\<close>

lemma excerpts_order_not_retrieval_order:
  "generate_response (\<lambda>xs. rev (remdups xs)) ''q'' [VStr ''a'', VStr ''b'']
     = Inr (response_header ''q'' @ ''Document 1: b'' @ [CHR 0x0A, CHR 0x0A]
              @ ''Document 2: a'' @ [CHR 0x0A, CHR 0x0A])"
proof -
  have "str_nat (Suc 0) = ''1''" "str_nat (Suc (Suc 0)) = ''2''" by code_simp+
  then show ?thesis
    by (simp add: generate_response_def hashable_def py_prefix_def slice_index_def ctx_preview_def)
qed






section \<open>The local search: ranking\<close>

text \<open>Floats other than NaN are totally ordered by \<open><\<close>.\<close>

lemma score_ge_after_less:
  assumes "np_less y x" "score_ge y z"
  shows "score_ge x z \<and> z \<noteq> x"
  using assms by (cases x; cases y; cases z) (auto simp: score_ge_def)

lemma score_ge_of_less: "np_less y x \<Longrightarrow> score_ge x y \<and> y \<noteq> x"
  by (cases x; cases y) (auto simp: score_ge_def)

lemma score_ge_of_not_less: "\<not> np_less y x \<Longrightarrow> x \<noteq> NaN \<Longrightarrow> y \<noteq> NaN \<Longrightarrow> score_ge y x"
  by (simp add: score_ge_def)

lemma set_insert_desc: "set (insert_desc x ys) = insert x (set ys)"
  by (induction ys) auto

lemma mset_insert_desc: "mset (insert_desc x ys) = add_mset x (mset ys)"
  by (induction ys) auto

lemma descending_insert_desc:
  assumes "descending ys" "\<forall>p\<in>set (x # ys). snd p \<noteq> NaN"
  shows "descending (insert_desc x ys)"
  using assms
proof (induction ys)
  case Nil
  then show ?case by (simp add: descending_def)
next
  case (Cons y ys)
  show ?case
  proof (cases "np_less (snd y) (snd x)")
    case True
    have "\<forall>z\<in>set ys. score_ge (snd y) (snd z)"
      using Cons.prems(1) by (simp add: descending_def)
    then have "\<forall>z\<in>set (y # ys). score_ge (snd x) (snd z)"
      using True score_ge_after_less score_ge_of_less by auto
    then show ?thesis using True Cons.prems(1) by (simp add: descending_def)
  next
    case False
    then have yx: "score_ge (snd y) (snd x)"
      using Cons.prems(2) by (simp add: score_ge_of_not_less)
    have d: "descending ys" using Cons.prems(1) by (simp add: descending_def)
    have f: "\<forall>p\<in>set (x # ys). snd p \<noteq> NaN" using Cons.prems(2) by simp
    have "descending (insert_desc x ys)" by (rule Cons.IH[OF d f])
    moreover have "\<forall>z\<in>set (insert_desc x ys). score_ge (snd y) (snd z)"
      using yx Cons.prems(1) by (auto simp: set_insert_desc descending_def)
    ultimately show ?thesis using False by (simp add: descending_def)
  qed
qed

lemma filter_insert_desc_other:
  "snd x \<noteq> k \<Longrightarrow> filter (\<lambda>p. snd p = k) (insert_desc x ys) = filter (\<lambda>p. snd p = k) ys"
  by (induction ys) auto

lemma filter_insert_desc_same:
  assumes "descending ys"
  shows "filter (\<lambda>p. snd p = snd x) (insert_desc x ys) = filter (\<lambda>p. snd p = snd x) ys @ [x]"
  using assms
proof (induction ys)
  case Nil
  then show ?case by simp
next
  case (Cons y ys)
  show ?case
  proof (cases "np_less (snd y) (snd x)")
    case True
    have "\<forall>z\<in>set ys. score_ge (snd y) (snd z)"
      using Cons.prems by (simp add: descending_def)
    then have "\<forall>z\<in>set (y # ys). snd z \<noteq> snd x"
      using True score_ge_after_less score_ge_of_less by auto
    then have "filter (\<lambda>p. snd p = snd x) (y # ys) = []" by (simp add: filter_empty_conv)
    then show ?thesis using True by simp
  next
    case False
    have d: "descending ys" using Cons.prems by (simp add: descending_def)
    show ?thesis using False Cons.IH[OF d] by simp
  qed
qed

lemma foldl_insert_desc:
  assumes "descending acc" "\<forall>p\<in>set (acc @ xs). snd p \<noteq> NaN"
  shows "descending (foldl (\<lambda>sorted x. insert_desc x sorted) acc xs)
     \<and> mset (foldl (\<lambda>sorted x. insert_desc x sorted) acc xs) = mset acc + mset xs
     \<and> (\<forall>k. filter (\<lambda>p. snd p = k) (foldl (\<lambda>sorted x. insert_desc x sorted) acc xs)
            = filter (\<lambda>p. snd p = k) acc @ filter (\<lambda>p. snd p = k) xs)"
  using assms
proof (induction xs arbitrary: acc)
  case Nil
  then show ?case by simp
next
  case (Cons x xs)
  have fx: "\<forall>p\<in>set (x # acc). snd p \<noteq> NaN" using Cons.prems(2) by auto
  have d: "descending (insert_desc x acc)" by (rule descending_insert_desc[OF Cons.prems(1) fx])
  have f: "\<forall>p\<in>set (insert_desc x acc @ xs). snd p \<noteq> NaN"
    using Cons.prems(2) by (auto simp: set_insert_desc)
  have st: "\<And>k. filter (\<lambda>p. snd p = k) (insert_desc x acc)
      = filter (\<lambda>p. snd p = k) acc @ filter (\<lambda>p. snd p = k) [x]"
    using filter_insert_desc_same[OF Cons.prems(1), of x] filter_insert_desc_other[of x _ acc]
    by auto
  from Cons.IH[OF d f] show ?case by (simp add: mset_insert_desc st)
qed

text \<open>
  When no score is NaN, the sort returns a rearrangement of the list that is in descending
  order of score and keeps the elements of one score in their order.
\<close>

lemma sort_desc_ranked:
  assumes "\<forall>p\<in>set xs. snd p \<noteq> NaN"
  shows "descending (sort_desc rt xs) \<and> mset (sort_desc rt xs) = mset xs
     \<and> (\<forall>k. filter (\<lambda>p. snd p = k) (sort_desc rt xs) = filter (\<lambda>p. snd p = k) xs)"
proof -
  have s: "sort_desc rt xs = insertion_desc xs"
    using assms by (simp add: sort_desc_def list_all_iff)
  have "descending ([] :: (stored_doc \<times> npfloat) list)" by (simp add: descending_def)
  moreover have "\<forall>p\<in>set ([] @ xs). snd p \<noteq> NaN" using assms by simp
  ultimately show ?thesis
    using foldl_insert_desc[of "[]" xs] by (simp add: s insertion_desc_def)
qed

text \<open>
  The claim C5 as stated fails on three kinds of input: a stored vector of zeros gets the
  score NaN, and the record stays ahead of a record of score 1, which it is not above; a
  negative \<open>top_k\<close> cuts the ranking from its end, so that \<open>top_k = -1\<close> on two
  records returns one result; a stored vector whose length differs from the query's raises
  ValueError. (Every value of these examples is exact in float64.)
\<close>

theorem mock_search_counterexample:
  "mock_search exact_runtime (\<lambda>_. [])
      [\<lparr>doc_id = ''a'', vector = [0], metadata = 0\<rparr>,
       \<lparr>doc_id = ''b'', vector = [1], metadata = 1\<rparr>] [1] 5
     = Inr [[(''id'', VStr ''a''), (''score'', VFloat NaN), (''metadata'', VDict [])],
            [(''id'', VStr ''b''), (''score'', VFloat (Fin 1)), (''metadata'', VDict [])]]
   \<and> \<not> score_ge NaN (Fin 1)
   \<and> mock_search exact_runtime (\<lambda>_. [])
      [\<lparr>doc_id = ''a'', vector = [1], metadata = 0\<rparr>,
       \<lparr>doc_id = ''b'', vector = [1], metadata = 1\<rparr>] [1] (- 1)
     = Inr [[(''id'', VStr ''a''), (''score'', VFloat (Fin 1)), (''metadata'', VDict [])]]
   \<and> mock_search exact_runtime (\<lambda>_. [])
      [\<lparr>doc_id = ''a'', vector = [1], metadata = 0\<rparr>] [1, 0] 5 = Inl ValueError"
  by (simp add: mock_search_def cosine_similarity_def np_dot_def np_norm_def exact_runtime_def
      sort_desc_def insertion_desc_def py_prefix_def slice_index_def search_result_def
      score_ge_def)

text \<open>
  C5, amended. Let \<open>top_k\<close> be at least 0, let every stored vector have the length of
  the query vector, and let no record get the score NaN. Then the local search returns at
  most \<open>top_k\<close> results: the first \<open>top_k\<close> entries of a ranking of the scored
  records, each scored with the value \<open>_cosine_similarity\<close> computes for it, that is a
  rearrangement of them, descending in the score, and in which the records of any one score
  stand in the order of the store. This holds for every rounding of the arithmetic.
\<close>

theorem mock_search_ranked:
  assumes "0 \<le> top_k"
    and "\<forall>d\<in>set store. length (vector d) = length query_vector"
    and "\<forall>d\<in>set store. cosine_similarity rt query_vector (vector d) \<noteq> Inr NaN"
  shows "\<exists>sims ranked results.
           similarities rt query_vector store = Inr sims \<and> map fst sims = store
         \<and> (\<forall>p\<in>set sims. cosine_similarity rt query_vector (vector (fst p)) = Inr (snd p))
         \<and> mset ranked = mset sims \<and> descending ranked
         \<and> (\<forall>s. filter (\<lambda>p. snd p = s) ranked = filter (\<lambda>p. snd p = s) sims)
         \<and> mock_search rt ds store query_vector top_k = Inr results
         \<and> results = map (search_result ds) (take (nat top_k) ranked)
         \<and> int (length results) \<le> top_k"
proof -
  from similarities_same_length[OF assms(2)] obtain sims where
    s: "similarities rt query_vector store = Inr sims" "map fst sims = store"
       "\<forall>p\<in>set sims. cosine_similarity rt query_vector (vector (fst p)) = Inr (snd p)"
    by blast
  have nn: "\<forall>p\<in>set sims. snd p \<noteq> NaN"
  proof
    fix p assume p: "p \<in> set sims"
    then have "fst p \<in> set store" using s(2) by force
    with assms(3) s(3) p show "snd p \<noteq> NaN" by force
  qed
  let ?ranked = "sort_desc rt sims"
  let ?results = "map (search_result ds) (take (nat top_k) ?ranked)"
  have r: "descending ?ranked" "mset ?ranked = mset sims"
    "\<forall>k. filter (\<lambda>p. snd p = k) ?ranked = filter (\<lambda>p. snd p = k) sims"
    using sort_desc_ranked[OF nn] by auto
  have m: "mock_search rt ds store query_vector top_k = Inr ?results"
    using s(1) assms(1) by (simp add: mock_search_def py_prefix_take)
  have l: "int (length ?results) \<le> top_k" using assms(1) by simp
  from s r m l show ?thesis by blast
qed

theorem mock_search_ranked_witness:
  "mock_search exact_runtime (\<lambda>_. [])
       [\<lparr>doc_id = ''a'', vector = [0, 1], metadata = 0\<rparr>,
        \<lparr>doc_id = ''b'', vector = [1, 0], metadata = 1\<rparr>,
        \<lparr>doc_id = ''c'', vector = [0, 2], metadata = 2\<rparr>] [0, 1] 2
     = Inr [[(''id'', VStr ''a''), (''score'', VFloat (Fin 1)), (''metadata'', VDict [])],
            [(''id'', VStr ''c''), (''score'', VFloat (Fin 1)), (''metadata'', VDict [])]]"
proof -
  let ?store = "[\<lparr>doc_id = ''a'', vector = [0, 1], metadata = 0\<rparr>,
                \<lparr>doc_id = ''b'', vector = [1, 0], metadata = 1\<rparr>,
                \<lparr>doc_id = ''c'', vector = [0, 2], metadata = 2\<rparr>]"
  have k: "(0::int) \<le> 2" by simp
  have d: "\<forall>d\<in>set ?store. length (vector d) = length [0, 1::real]" by simp
  have n: "\<forall>d\<in>set ?store. cosine_similarity exact_runtime [0, 1] (vector d) \<noteq> Inr NaN"
    by (simp add: cosine_similarity_def np_dot_def np_norm_def exact_runtime_def)
  from mock_search_ranked[OF k d n, of "\<lambda>_. []"] obtain sims ranked results where
    "similarities exact_runtime [0, 1] ?store = Inr sims"
    "mock_search exact_runtime (\<lambda>_. []) ?store [0, 1] 2 = Inr results"
    "results = map (search_result (\<lambda>_. [])) (take (nat 2) ranked)"
    "int (length results) \<le> 2"
    by blast
  moreover have "mock_search exact_runtime (\<lambda>_. []) ?store [0, 1] 2
     = Inr [[(''id'', VStr ''a''), (''score'', VFloat (Fin 1)), (''metadata'', VDict [])],
            [(''id'', VStr ''c''), (''score'', VFloat (Fin 1)), (''metadata'', VDict [])]]"
    by (simp add: mock_search_def cosine_similarity_def np_dot_def np_norm_def exact_runtime_def
      sort_desc_def insertion_desc_def py_prefix_def slice_index_def search_result_def)
  ultimately show ?thesis by simp
qed

section \<open>Chunks and the characters they cover\<close>

lemma slice_index_le: "slice_index n i \<le> n"
  by (auto simp: slice_index_def max_def)

lemma slice_index_inside: "0 \<le> i \<Longrightarrow> i \<le> int n \<Longrightarrow> slice_index n i = nat i"
  by (simp add: slice_index_def)

lemma rfind_down_less: "rfind_down c s lo hi < int hi"
proof (induction hi)
  case 0
  then show ?case by simp
next
  case (Suc i)
  then show ?case by (simp add: less_le)
qed

lemma py_rfind_less: "py_rfind c s start stop < int (length s)"
proof -
  have "rfind_down c s (slice_index (length s) start) (slice_index (length s) stop)
      < int (slice_index (length s) stop)" by (rule rfind_down_less)
  also have "\<dots> \<le> int (length s)" using slice_index_le by simp
  finally show ?thesis by (simp add: py_rfind_def)
qed

lemma window_end_le: "window_end T sz s \<le> int (length T)"
proof -
  have "\<And>c stop. py_rfind c T s stop + 1 \<le> int (length T)"
    using py_rfind_less[of _ T] by (simp add: add1_zle_eq)
  then show ?thesis by (auto simp add: window_end_def Let_def)
qed

lemma window_end_gt: "s < int (length T) \<Longrightarrow> 0 < sz \<Longrightarrow> s < window_end T sz s"
  by (simp add: window_end_def Let_def)

lemma py_slice_inside:
  assumes "0 \<le> s" "s \<le> e" "e \<le> int (length T)"
  shows "py_slice T s e = take (nat e - nat s) (drop (nat s) T)"
  using assms by (simp add: py_slice_def slice_index_inside Let_def)

lemma furthest_snoc: "furthest (ws @ [w]) = max (furthest ws) (snd w)"
  by (induction ws) auto

lemma furthest_ge: "w \<in> set ws \<Longrightarrow> snd w \<le> furthest ws"
  by (induction ws) auto

text \<open>
  An invariant of the loop: a property of the windows, the cursor and the counter that
  holds at the start and is kept by every iteration holds when the loop returns, in a state
  where the loop condition or the progress guard fails.
\<close>

lemma window_loop_rule:
  assumes "window_loop mc T sz ov s c ws = Some res"
    and "P ws s c"
    and step: "\<And>ws s c. P ws s c \<Longrightarrow> s < int (length T) \<Longrightarrow> c < mc \<Longrightarrow> s < window_end T sz s
                 \<Longrightarrow> P (ws @ [(s, window_end T sz s)]) (window_end T sz s - ov) (c + 1)"
  shows "\<exists>s' c'. P res s' c' \<and> \<not> (s' < int (length T) \<and> c' < mc \<and> s' < window_end T sz s')"
  using assms(1,2)
proof (induction "nat (mc - c)" arbitrary: s c ws)
  case 0
  then have n: "\<not> c < mc" by simp
  then have "window_loop mc T sz ov s c ws = Some ws" by (subst window_loop.simps) simp
  with 0 n show ?case by auto
next
  case (Suc k)
  then have lt: "c < mc" by linarith
  show ?case
  proof (cases "s < int (length T) \<and> s < window_end T sz s")
    case True
    from Suc(2) have k: "k = nat (mc - (c + 1))" by linarith
    have "window_loop mc T sz ov s c ws
        = window_loop mc T sz ov (window_end T sz s - ov) (c + 1) (ws @ [(s, window_end T sz s)])"
      using True lt by (subst window_loop.simps) (simp add: Let_def)
    with Suc(3) have r: "window_loop mc T sz ov (window_end T sz s - ov) (c + 1)
        (ws @ [(s, window_end T sz s)]) = Some res" by simp
    have p: "P (ws @ [(s, window_end T sz s)]) (window_end T sz s - ov) (c + 1)"
      using step[OF Suc(4)] True lt by simp
    from Suc(1)[OF k r p] show ?thesis .
  next
    case False
    then have "window_loop mc T sz ov s c ws = Some ws"
      by (subst window_loop.simps) (auto simp add: Let_def)
    with Suc(3) have "res = ws" by simp
    with False Suc(4) show ?thesis by auto
  qed
qed

text \<open>The chunks are the slices of the windows.\<close>

lemma chunk_loop_windows:
  "chunk_loop mc T sz ov s c (map (\<lambda>w. py_slice T (fst w) (snd w)) ws)
     = map_option (map (\<lambda>w. py_slice T (fst w) (snd w))) (window_loop mc T sz ov s c ws)"
proof (induction "nat (mc - c)" arbitrary: s c ws)
  case 0
  then have "\<not> c < mc" by simp
  then show ?case by (subst chunk_loop.simps, subst window_loop.simps) simp
next
  case (Suc k)
  then have lt: "c < mc" by linarith
  show ?case
  proof (cases "s < int (length T) \<and> s < window_end T sz s")
    case True
    from Suc(2) have k: "k = nat (mc - (c + 1))" by linarith
    have "chunk_loop mc T sz ov s c (map (\<lambda>w. py_slice T (fst w) (snd w)) ws)
        = chunk_loop mc T sz ov (window_end T sz s - ov) (c + 1)
            (map (\<lambda>w. py_slice T (fst w) (snd w)) (ws @ [(s, window_end T sz s)]))"
      using True lt by (subst chunk_loop.simps) (simp add: Let_def)
    moreover have "window_loop mc T sz ov s c ws
        = window_loop mc T sz ov (window_end T sz s - ov) (c + 1) (ws @ [(s, window_end T sz s)])"
      using True lt by (subst window_loop.simps) (simp add: Let_def)
    ultimately show ?thesis
      using Suc(1)[OF k, of "window_end T sz s - ov" "ws @ [(s, window_end T sz s)]"] by simp
  next
    case False
    then show ?thesis
      by (subst chunk_loop.simps, subst window_loop.simps) (auto simp add: Let_def)
  qed
qed

lemma chunk_text_windows:
  "chunk_text mc T sz ov
     = map_option (map (\<lambda>w. py_slice T (fst w) (snd w))) (chunk_windows mc T sz ov)"
  using chunk_loop_windows[of mc T sz _ 0 0 "[]"]
  by (simp add: chunk_text_def chunk_windows_def Let_def)


lemma in_window_iff: "in_window ws i \<longleftrightarrow> (\<exists>w\<in>set ws. fst w \<le> i \<and> i < snd w)"
  by (simp add: in_window_def list_ex_iff)

lemma covers_iff: "covers T ws \<longleftrightarrow> (\<forall>i. 0 \<le> i \<and> i < int (length T) \<longrightarrow> in_window ws i)"
proof
  assume c: "covers T ws"
  show "\<forall>i. 0 \<le> i \<and> i < int (length T) \<longrightarrow> in_window ws i"
  proof (intro allI impI)
    fix i :: int
    assume "0 \<le> i \<and> i < int (length T)"
    then have "nat i < length T" "int (nat i) = i" by auto
    with c show "in_window ws i" by (force simp: covers_def list_all_iff)
  qed
next
  assume "\<forall>i. 0 \<le> i \<and> i < int (length T) \<longrightarrow> in_window ws i"
  then show "covers T ws" by (simp add: covers_def list_all_iff)
qed

text \<open>
  With an overlap that is not negative, the cursor never passes the furthest edge reached;
  so as long as no window starts before position 0, the windows cover every position below
  that edge.
\<close>

lemma window_loop_covers:
  assumes "0 \<le> ov" "window_loop mc T sz ov 0 0 [] = Some res"
  shows "(\<forall>w\<in>set res. fst w < snd w \<and> snd w \<le> int (length T))
     \<and> ((\<forall>w\<in>set res. 0 \<le> fst w) \<longrightarrow> (\<forall>i. 0 \<le> i \<and> i < furthest res \<longrightarrow> in_window res i))"
proof -
  let ?P = "\<lambda>ws s (c::int). c = int (length ws)
      \<and> (\<forall>w\<in>set ws. fst w < snd w \<and> snd w \<le> int (length T))
      \<and> s \<le> furthest ws
      \<and> ((\<forall>w\<in>set ws. 0 \<le> fst w) \<longrightarrow> (\<forall>i. 0 \<le> i \<and> i < furthest ws \<longrightarrow> in_window ws i))"
  have init: "?P [] 0 0" by auto
  have step: "\<And>ws s c. ?P ws s c \<Longrightarrow> s < int (length T) \<Longrightarrow> c < mc \<Longrightarrow> s < window_end T sz s
       \<Longrightarrow> ?P (ws @ [(s, window_end T sz s)]) (window_end T sz s - ov) (c + 1)"
  proof -
    fix ws s and c :: int
    assume p: "?P ws s c" and gt: "s < window_end T sz s"
    let ?e = "window_end T sz s"
    let ?ws = "ws @ [(s, ?e)]"
    have 0: "c + 1 = int (length ?ws)" using p by simp
    have 1: "\<forall>w\<in>set ?ws. fst w < snd w \<and> snd w \<le> int (length T)"
      using p gt window_end_le[of T sz s] by auto
    have 2: "?e - ov \<le> furthest ?ws" using assms(1) by (simp add: furthest_snoc)
    have 3: "(\<forall>w\<in>set ?ws. 0 \<le> fst w) \<longrightarrow> (\<forall>i. 0 \<le> i \<and> i < furthest ?ws \<longrightarrow> in_window ?ws i)"
    proof (intro impI allI)
      fix i
      assume nn: "\<forall>w\<in>set ?ws. 0 \<le> fst w" and i: "0 \<le> i \<and> i < furthest ?ws"
      show "in_window ?ws i"
      proof (cases "i < furthest ws")
        case True
        with p nn i have "in_window ws i" by simp
        then show ?thesis by (auto simp: in_window_iff)
      next
        case False
        with i have "i < ?e" by (auto simp: furthest_snoc)
        moreover from False p have "s \<le> i" by linarith
        ultimately show ?thesis by (auto simp: in_window_iff)
      qed
    qed
    from 0 1 2 3 show "?P ?ws (?e - ov) (c + 1)" by blast
  qed
  have "\<exists>s' c'. ?P res s' c' \<and> \<not> (s' < int (length T) \<and> c' < mc \<and> s' < window_end T sz s')"
  proof (rule window_loop_rule[where P = ?P, OF assms(2) init])
    fix ws s and c :: int
    assume "?P ws s c" "s < int (length T)" "c < mc" "s < window_end T sz s"
    then show "?P (ws @ [(s, window_end T sz s)]) (window_end T sz s - ov) (c + 1)"
      by (rule step)
  qed
  then show ?thesis by blast
qed

text \<open>
  Without overlap every window starts where the one before it ended: the chunks,
  concatenated, are the text up to the cursor, and the loop ends before the end of the text
  only when the cap is reached.
\<close>

lemma window_loop_partition:
  assumes "0 < sz" "window_loop mc T sz 0 0 0 [] = Some res"
  shows "prefix (concat (map (\<lambda>w. py_slice T (fst w) (snd w)) res)) T
     \<and> (int (length res) < mc \<longrightarrow> concat (map (\<lambda>w. py_slice T (fst w) (snd w)) res) = T)"
proof -
  let ?P = "\<lambda>ws s (c::int). c = int (length ws) \<and> 0 \<le> s \<and> s \<le> int (length T)
      \<and> concat (map (\<lambda>w. py_slice T (fst w) (snd w)) ws) = take (nat s) T"
  have init: "?P [] 0 0" by simp
  have step: "\<And>ws s c. ?P ws s c \<Longrightarrow> s < int (length T) \<Longrightarrow> c < mc \<Longrightarrow> s < window_end T sz s
       \<Longrightarrow> ?P (ws @ [(s, window_end T sz s)]) (window_end T sz s - 0) (c + 1)"
  proof -
    fix ws s and c :: int
    assume p: "?P ws s c" and gt: "s < window_end T sz s"
    let ?e = "window_end T sz s"
    have le: "?e \<le> int (length T)" by (rule window_end_le)
    from p have s0: "0 \<le> s" by simp
    have sl: "py_slice T s ?e = take (nat ?e - nat s) (drop (nat s) T)"
      using py_slice_inside[OF s0 _ le] gt by simp
    have "nat ?e = nat s + (nat ?e - nat s)" using gt s0 by linarith
    then have "take (nat ?e) T = take (nat s) T @ take (nat ?e - nat s) (drop (nat s) T)"
      using take_add[of "nat s" "nat ?e - nat s" T] by simp
    with p sl have "concat (map (\<lambda>w. py_slice T (fst w) (snd w)) (ws @ [(s, ?e)])) = take (nat ?e) T"
      by simp
    with p gt le s0 show "?P (ws @ [(s, ?e)]) (?e - 0) (c + 1)" by simp
  qed
  have "\<exists>s' c'. ?P res s' c' \<and> \<not> (s' < int (length T) \<and> c' < mc \<and> s' < window_end T sz s')"
  proof (rule window_loop_rule[where P = ?P, OF assms(2) init])
    fix ws s and c :: int
    assume "?P ws s c" "s < int (length T)" "c < mc" "s < window_end T sz s"
    then show "?P (ws @ [(s, window_end T sz s)]) (window_end T sz s - 0) (c + 1)"
      by (rule step)
  qed
  then obtain s' c' where
    f: "c' = int (length res)" "0 \<le> s'" "s' \<le> int (length T)"
       "concat (map (\<lambda>w. py_slice T (fst w) (snd w)) res) = take (nat s') T"
    and x: "\<not> (s' < int (length T) \<and> c' < mc \<and> s' < window_end T sz s')" by blast
  have 1: "prefix (concat (map (\<lambda>w. py_slice T (fst w) (snd w)) res)) T"
    using f(4) by (simp add: take_is_prefix)
  have 2: "int (length res) < mc \<longrightarrow> concat (map (\<lambda>w. py_slice T (fst w) (snd w)) res) = T"
  proof
    assume "int (length res) < mc"
    with x f(1) have "\<not> (s' < int (length T) \<and> s' < window_end T sz s')" by simp
    with window_end_gt[OF _ assms(1), of s' T] have "\<not> s' < int (length T)" by blast
    with f(3) have "nat s' = length T" by linarith
    with f(4) show "concat (map (\<lambda>w. py_slice T (fst w) (snd w)) res) = T" by simp
  qed
  from 1 2 show ?thesis by blast
qed


text \<open>
  The cap ends the walk: with a cap of 2 chunks, a chunk size of 1 and no overlap, the text
  \<open>abc\<close> yields the chunks \<open>a\<close> and \<open>b\<close>, and what lies beyond the cap is
  left out.
\<close>

lemma chunk_text_cap_truncates:
  "chunk_text 2 ''abc'' 1 0 = Some [''a'', ''b'']
   \<and> chunk_windows 2 ''abc'' 1 0 = Some [(0, 1), (1, 2)]
   \<and> \<not> covers ''abc'' [(0, 1), (1, 2)]
   \<and> \<not> in_window [(0, 1), (1, 2)] 2"
  by code_simp

text \<open>
  The cursor can also fall back: the next window starts \<open>overlap\<close> characters before
  the edge, also when the edge was moved to a newline less than \<open>overlap\<close> characters
  after the start. Here the second window starts at \<open>-3\<close>, and every chunk after the
  first is empty, up to the cap.
\<close>

lemma chunk_text_cursor_falls_back:
  "chunk_text 4 (CHR ''a'' # CHR 0x0A # ''bbbbbbbbbbbbbbbbbbbb'') 10 5
     = Some [[CHR ''a'', CHR 0x0A], [], [], []]
   \<and> chunk_windows 4 (CHR ''a'' # CHR 0x0A # ''bbbbbbbbbbbbbbbbbbbb'') 10 5
     = Some [(0, 2), (- 3, 0), (- 5, 0), (- 5, 0)]"
  by code_simp

text \<open>
  With an overlap above 0 the cursor never reaches the end of the text: after a window
  that ends at the end of the text, the next one starts \<open>overlap\<close> characters before
  it. The loop then ends by the cap only, and a text that is not empty always yields
  \<open>max_chunks\<close> chunks.
\<close>

lemma window_loop_runs_to_cap:
  assumes "0 < ov" "0 < sz" "T \<noteq> []" "0 \<le> mc" "window_loop mc T sz ov 0 0 [] = Some res"
  shows "int (length res) = mc"
proof -
  let ?P = "\<lambda>(ws::(int \<times> int) list) s (c::int). c = int (length ws) \<and> c \<le> mc \<and> s < int (length T)"
  have init: "?P [] 0 0" using assms(3,4) by simp
  have "\<exists>s' c'. ?P res s' c' \<and> \<not> (s' < int (length T) \<and> c' < mc \<and> s' < window_end T sz s')"
  proof (rule window_loop_rule[where P = ?P, OF assms(5) init])
    fix ws :: "(int \<times> int) list" and s and c :: int
    assume p: "?P ws s c" and "c < mc"
    have "window_end T sz s - ov < int (length T)"
      using window_end_le[of T sz s] assms(1) by linarith
    with p \<open>c < mc\<close> show "?P (ws @ [(s, window_end T sz s)]) (window_end T sz s - ov) (c + 1)"
      by simp
  qed
  then obtain s' c' where f: "c' = int (length res)" "c' \<le> mc" "s' < int (length T)"
    and x: "\<not> (s' < int (length T) \<and> c' < mc \<and> s' < window_end T sz s')" by blast
  from window_end_gt[OF f(3) assms(2)] x f(3) have "\<not> c' < mc" by blast
  with f show ?thesis by simp
qed

lemma chunk_text_fills_cap:
  assumes "0 < overlap" "overlap < chunk_size" "text \<noteq> []" "0 \<le> max_chunks"
  shows "\<exists>chunks. chunk_text max_chunks text chunk_size overlap = Some chunks
           \<and> int (length chunks) = max_chunks"
proof -
  obtain chunks where c: "chunk_text max_chunks text chunk_size overlap = Some chunks"
    using chunk_text_returns by blast
  then obtain windows where w: "chunk_windows max_chunks text chunk_size overlap = Some windows"
    and cw: "chunks = map (\<lambda>w. py_slice text (fst w) (snd w)) windows"
    by (auto simp: chunk_text_windows)
  from w assms(2,3) have "window_loop max_chunks text chunk_size overlap 0 0 [] = Some windows"
    by (simp add: chunk_windows_def)
  from window_loop_runs_to_cap[OF assms(1) _ assms(3,4) this] assms(1,2)
  have "int (length windows) = max_chunks" by simp
  with c cw show ?thesis by simp
qed

lemma chunk_text_fills_cap_example:
  "chunk_text 6 ''hello world'' 1000 200
     = Some [''hello world'', ''hello world'', ''hello world'', ''hello world'',
             ''hello world'', ''hello world'']"
proof -
  have h: "(0::int) < 200" "(200::int) < 1000" "''hello world'' \<noteq> []" "(0::int) \<le> 6" by simp_all
  from chunk_text_fills_cap[OF h] obtain chunks where
    "chunk_text 6 ''hello world'' 1000 200 = Some chunks" "int (length chunks) = 6" by blast
  moreover have "chunk_text 6 ''hello world'' 1000 200
     = Some [''hello world'', ''hello world'', ''hello world'', ''hello world'',
             ''hello world'', ''hello world'']" by code_simp
  ultimately show ?thesis by simp
qed

text \<open>
  What the walk does reach. For \<open>0 \<le> overlap < chunk_size\<close>, \<open>chunk_text\<close>
  returns at most \<open>max_chunks\<close> chunks, each the slice of the text between the two
  edges of its window; the left edge of a window lies before its right edge, which is at
  most the length of the text. When no window starts before position 0, the windows cover
  every position below the furthest edge reached, hence the whole text when one of them ends
  at the end of the text. Without overlap the chunks, concatenated, are a prefix of the
  text, and the whole text when fewer than \<open>max_chunks\<close> chunks are returned. Whether
  the walk reaches the end of the text is another matter: the next section has texts on
  which it never does, whatever the cap.
\<close>

lemma chunk_text_reached_is_covered:
  assumes "0 \<le> overlap" "overlap < chunk_size"
  shows "\<exists>chunks windows.
      chunk_text max_chunks text chunk_size overlap = Some chunks
    \<and> chunk_windows max_chunks text chunk_size overlap = Some windows
    \<and> chunks = map (\<lambda>w. py_slice text (fst w) (snd w)) windows
    \<and> int (length chunks) \<le> max 0 max_chunks
    \<and> (\<forall>w\<in>set windows. fst w < snd w \<and> snd w \<le> int (length text))
    \<and> ((\<forall>w\<in>set windows. 0 \<le> fst w) \<and> (\<exists>w\<in>set windows. snd w = int (length text))
          \<longrightarrow> covers text windows)
    \<and> (overlap = 0 \<longrightarrow> prefix (concat chunks) text
          \<and> (int (length chunks) < max_chunks \<longrightarrow> concat chunks = text))"
proof -
  obtain chunks where c: "chunk_text max_chunks text chunk_size overlap = Some chunks"
    and len: "int (length chunks) \<le> max 0 max_chunks"
    using chunk_text_returns by blast
  from c obtain windows where w: "chunk_windows max_chunks text chunk_size overlap = Some windows"
    and cw: "chunks = map (\<lambda>w. py_slice text (fst w) (snd w)) windows"
    by (auto simp: chunk_text_windows)
  show ?thesis
  proof (cases "text = []")
    case True
    with w have "windows = []" by (simp add: chunk_windows_def)
    with True c len w cw show ?thesis by (simp add: covers_def)
  next
    case False
    with w assms(2) have loop: "window_loop max_chunks text chunk_size overlap 0 0 [] = Some windows"
      by (simp add: chunk_windows_def)
    from window_loop_covers[OF assms(1) loop] have
      e: "\<forall>w\<in>set windows. fst w < snd w \<and> snd w \<le> int (length text)"
      and cov: "(\<forall>w\<in>set windows. 0 \<le> fst w)
         \<longrightarrow> (\<forall>i. 0 \<le> i \<and> i < furthest windows \<longrightarrow> in_window windows i)"
      by blast+
    have 1: "(\<forall>w\<in>set windows. 0 \<le> fst w) \<and> (\<exists>w\<in>set windows. snd w = int (length text))
          \<longrightarrow> covers text windows"
    proof (intro impI, elim conjE bexE)
      fix w
      assume nn: "\<forall>w\<in>set windows. 0 \<le> fst w" and m: "w \<in> set windows"
        and r: "snd w = int (length text)"
      from furthest_ge[OF m] r have "int (length text) \<le> furthest windows" by simp
      with cov nn show "covers text windows" by (simp add: covers_iff)
    qed
    have 2: "overlap = 0 \<longrightarrow> prefix (concat chunks) text
          \<and> (int (length chunks) < max_chunks \<longrightarrow> concat chunks = text)"
    proof
      assume z: "overlap = 0"
      with assms(2) have sz: "0 < chunk_size" by simp
      from loop z have "window_loop max_chunks text chunk_size 0 0 0 [] = Some windows" by simp
      from window_loop_partition[OF sz this] cw
      show "prefix (concat chunks) text
          \<and> (int (length chunks) < max_chunks \<longrightarrow> concat chunks = text)" by simp
    qed
    from c w cw len e 1 2 show ?thesis by blast
  qed
qed

lemma chunk_text_reached_is_covered_example:
  "chunk_text 5 ''abcde'' 3 1 = Some [''abc'', ''cde'', ''e'', ''e'', ''e'']
   \<and> chunk_windows 5 ''abcde'' 3 1 = Some [(0, 3), (2, 5), (4, 5), (4, 5), (4, 5)]
   \<and> covers ''abcde'' [(0, 3), (2, 5), (4, 5), (4, 5), (4, 5)]"
proof -
  have h: "(0::int) \<le> 1" "(1::int) < 3" by simp_all
  have c: "chunk_text 5 ''abcde'' 3 1 = Some [''abc'', ''cde'', ''e'', ''e'', ''e'']" by code_simp
  have w: "chunk_windows 5 ''abcde'' 3 1 = Some [(0, 3), (2, 5), (4, 5), (4, 5), (4, 5)]"
    by code_simp
  from chunk_text_reached_is_covered[OF h, of 5 "''abcde''"] c w
  have "(\<forall>w\<in>set [(0, 3), (2, 5), (4, 5), (4, 5), (4::int, 5::int)]. 0 \<le> fst w)
        \<and> (\<exists>w\<in>set [(0, 3), (2, 5), (4, 5), (4, 5), (4::int, 5::int)]. snd w = int (length ''abcde''))
          \<longrightarrow> covers ''abcde'' [(0, 3), (2, 5), (4, 5), (4, 5), (4, 5)]"
    by auto
  then have "covers ''abcde'' [(0, 3), (2, 5), (4, 5), (4, 5), (4, 5)]" by simp
  with c w show ?thesis by simp
qed

section \<open>A cursor that does not advance\<close>

text \<open>
  After a window \<open>(start, e)\<close> the cursor moves to \<open>e - overlap\<close>. The edge \<open>e\<close>
  is moved back to just after the last newline or space of the window, and nothing keeps it
  more than \<open>overlap\<close> characters after \<open>start\<close>: the guard of line 134 only asks
  for \<open>e > start\<close>. When \<open>e - overlap \<le> start\<close> the walk makes no progress, and the
  same window, or an empty one before position 0, is emitted until the cap.

  In the text of 7 letters \<open>a\<close>, a newline and 30 letters \<open>c\<close>, with a chunk size
  of 10 and an overlap of 3, the windows from 0 and from 5 both end after the newline, at 8,
  and \<open>8 - 3 = 5\<close>.
\<close>

lemma stall_window_ends:
  "window_end ''aaaaaaa\<newline>cccccccccccccccccccccccccccccc'' 10 0 = 8"
  "window_end ''aaaaaaa\<newline>cccccccccccccccccccccccccccccc'' 10 5 = 8"
  by code_simp+

lemma stall_slices:
  "py_slice ''aaaaaaa\<newline>cccccccccccccccccccccccccccccc'' 0 8 = ''aaaaaaa\<newline>''"
  "py_slice ''aaaaaaa\<newline>cccccccccccccccccccccccccccccc'' 5 8 = ''aa\<newline>''"
  by code_simp+

lemma window_loop_stalls:
  assumes "window_loop mc ''aaaaaaa\<newline>cccccccccccccccccccccccccccccc'' 10 3 0 0 [] = Some res"
  shows "res = (if mc \<le> 0 then [] else (0, 8) # replicate (nat mc - 1) (5, 8))"
proof -
  let ?T = "''aaaaaaa\<newline>cccccccccccccccccccccccccccccc''"
  let ?P = "\<lambda>(ws::(int \<times> int) list) (s::int) (c::int). c = int (length ws) \<and> c \<le> max 0 mc
      \<and> ((ws = [] \<and> s = 0) \<or> (ws = (0, 8) # replicate (length ws - 1) (5, 8) \<and> s = 5))"
  have init: "?P [] 0 0" by simp
  have "\<exists>s' c'. ?P res s' c' \<and> \<not> (s' < int (length ?T) \<and> c' < mc \<and> s' < window_end ?T 10 s')"
  proof (rule window_loop_rule[where P = ?P, OF assms init])
    fix ws :: "(int \<times> int) list" and s c :: int
    assume p: "?P ws s c" and lt: "c < mc"
    from p have "(ws = [] \<and> s = 0) \<or> (ws = (0, 8) # replicate (length ws - 1) (5, 8) \<and> s = 5)"
      by blast
    then have "window_end ?T 10 s = 8
        \<and> ws @ [(s, 8)] = (0, 8) # replicate (length (ws @ [(s, 8)]) - 1) (5, 8)"
    proof
      assume "ws = [] \<and> s = 0"
      then show ?thesis by (simp add: stall_window_ends)
    next
      assume a: "ws = (0, 8) # replicate (length ws - 1) (5, 8) \<and> s = 5"
      then have "ws @ [(5, 8)] = (0, 8) # (replicate (length ws - 1) (5, 8) @ [(5, 8)])"
        by (metis append_Cons)
      also have "\<dots> = (0, 8) # replicate (Suc (length ws - 1)) (5, 8)"
        by (simp only: replicate_append_same replicate_Suc)
      also have "Suc (length ws - 1) = length (ws @ [(5::int, 8::int)]) - 1"
        using a by (cases ws) simp_all
      finally show ?thesis using a by (simp add: stall_window_ends)
    qed
    with p lt show "?P (ws @ [(s, window_end ?T 10 s)]) (window_end ?T 10 s - 3) (c + 1)"
      by simp
  qed
  then obtain s' c' where f: "c' = int (length res)" "c' \<le> max 0 mc"
      "(res = [] \<and> s' = 0) \<or> (res = (0, 8) # replicate (length res - 1) (5, 8) \<and> s' = 5)"
    and x: "\<not> (s' < int (length ?T) \<and> c' < mc \<and> s' < window_end ?T 10 s')" by blast
  from f(3) have "s' < int (length ?T) \<and> s' < window_end ?T 10 s'"
    by (auto simp: stall_window_ends)
  with x have ge: "mc \<le> c'" by simp
  show ?thesis
  proof (cases "mc \<le> 0")
    case True
    with f(1,2) have "res = []" by simp
    with True show ?thesis by simp
  next
    case False
    with ge f(1,2) have l: "int (length res) = mc" by simp
    with False have "res \<noteq> []" by auto
    with f(3) have "res = (0, 8) # replicate (length res - 1) (5, 8)" by blast
    moreover from l have "length res - 1 = nat mc - 1" by simp
    ultimately show ?thesis using False by simp
  qed
qed

text \<open>
  C1. The claim fails on the code, inside its hypotheses (\<open>0 \<le> 3 < 10\<close>) and for every
  cap. On the text of 7 letters \<open>a\<close>, a newline and 30 letters \<open>c\<close>, with a chunk
  size of 10 and an overlap of 3, \<open>chunk_text\<close> returns, for a cap \<open>max_chunks\<close>
  above 0, the chunk \<open>aaaaaaa\n\<close> followed by \<open>max_chunks - 1\<close> copies of the chunk
  \<open>aa\n\<close>: the windows are \<open>(0, 8)\<close> and then \<open>(5, 8)\<close> again and again. No
  position from 8 on lies in a window, so none of the 30 letters \<open>c\<close> is in any chunk:
  the chunks do not cover the text, whatever the cap. The number of chunks is bounded by
  the cap, as the claim says.
\<close>

theorem chunk_text_stalls:
  "\<exists>windows.
      windows = (if max_chunks \<le> 0 then [] else (0, 8) # replicate (nat max_chunks - 1) (5, 8))
    \<and> chunk_windows max_chunks ''aaaaaaa\<newline>cccccccccccccccccccccccccccccc'' 10 3 = Some windows
    \<and> chunk_text max_chunks ''aaaaaaa\<newline>cccccccccccccccccccccccccccccc'' 10 3
        = Some (if max_chunks \<le> 0 then []
                else ''aaaaaaa\<newline>'' # replicate (nat max_chunks - 1) ''aa\<newline>'')
    \<and> (\<forall>i. 8 \<le> i \<longrightarrow> \<not> in_window windows i)
    \<and> \<not> covers ''aaaaaaa\<newline>cccccccccccccccccccccccccccccc'' windows"
proof -
  let ?T = "''aaaaaaa\<newline>cccccccccccccccccccccccccccccc''"
  let ?ws = "if max_chunks \<le> 0 then [] else (0, 8) # replicate (nat max_chunks - 1) (5::int, 8::int)"
  obtain chunks where c: "chunk_text max_chunks ?T 10 3 = Some chunks"
    using chunk_text_returns by blast
  then obtain windows where w: "chunk_windows max_chunks ?T 10 3 = Some windows"
    and cw: "chunks = map (\<lambda>w. py_slice ?T (fst w) (snd w)) windows"
    by (auto simp: chunk_text_windows)
  from w have "window_loop max_chunks ?T 10 3 0 0 [] = Some windows"
    by (simp add: chunk_windows_def)
  from window_loop_stalls[OF this] have ws: "windows = ?ws" .
  have 1: "chunk_windows max_chunks ?T 10 3 = Some ?ws" using w ws by simp
  have 2: "chunk_text max_chunks ?T 10 3
        = Some (if max_chunks \<le> 0 then []
                else ''aaaaaaa\<newline>'' # replicate (nat max_chunks - 1) ''aa\<newline>'')"
    using c cw ws by (simp add: stall_slices)
  have 3: "\<forall>i. 8 \<le> i \<longrightarrow> \<not> in_window ?ws i" by (auto simp: in_window_iff)
  have "\<not> in_window ?ws 8" using 3 by simp
  moreover have "(0::int) \<le> 8 \<and> 8 < int (length ?T)" by simp
  ultimately have 4: "\<not> covers ?T ?ws" unfolding covers_iff by blast
  from 1 2 3 4 show ?thesis by blast
qed

theorem chunk_text_stalls_witness:
  "chunk_text 4 ''aaaaaaa\<newline>cccccccccccccccccccccccccccccc'' 10 3
     = Some [''aaaaaaa\<newline>'', ''aa\<newline>'', ''aa\<newline>'', ''aa\<newline>'']
   \<and> chunk_windows 4 ''aaaaaaa\<newline>cccccccccccccccccccccccccccccc'' 10 3
     = Some [(0, 8), (5, 8), (5, 8), (5, 8)]
   \<and> (8::int) \<le> 8 \<and> \<not> in_window [(0, 8), (5, 8), (5, 8), (5, 8)] 8
   \<and> \<not> covers ''aaaaaaa\<newline>cccccccccccccccccccccccccccccc'' [(0, 8), (5, 8), (5, 8), (5, 8)]"
proof -
  have r: "(if (4::int) \<le> 0 then [] else (0, 8) # replicate (nat 4 - 1) (5, 8))
      = [(0::int, 8::int), (5, 8), (5, 8), (5, 8)]"
    by (simp add: eval_nat_numeral)
  have r': "(if (4::int) \<le> 0 then [] else ''aaaaaaa\<newline>'' # replicate (nat 4 - 1) ''aa\<newline>'')
      = [''aaaaaaa\<newline>'', ''aa\<newline>'', ''aa\<newline>'', ''aa\<newline>'']"
    by (simp add: eval_nat_numeral)
  from chunk_text_stalls[of 4] show ?thesis unfolding r r' by simp
qed

text \<open>
  The same with the default chunk size 1000 and overlap 200, on a title line followed by
  1200 letters: the first window ends after the newline, at 6, the cursor moves to
  \<open>6 - 200 = -194\<close>, and from there on every window ends at 0 (\<open>rfind\<close> finds
  nothing and returns \<open>-1\<close>, which lies after the negative start) and every chunk is the
  empty string. None of the 1200 letters is in a chunk, and with the default cap of 5000
  the result is the title line followed by 4999 empty strings.
\<close>

lemma rfind_down_empty: "hi \<le> lo \<Longrightarrow> rfind_down c s lo hi = - 1"
  by (cases hi) simp_all

lemma rfind_down_last:
  assumes "lo \<le> p" "p < hi" "s ! p = c" "\<forall>i. p < i \<and> i < hi \<longrightarrow> s ! i \<noteq> c"
  shows "rfind_down c s lo hi = int p"
  using assms
proof (induction hi)
  case 0
  then show ?case by simp
next
  case (Suc h)
  show ?case
  proof (cases "h = p")
    case True
    with Suc.prems show ?thesis by simp
  next
    case False
    with Suc.prems have "p < h" "s ! h \<noteq> c" "\<not> Suc h \<le> lo" by auto
    with Suc show ?thesis by simp
  qed
qed

lemma title_text:
  "length (''Title\<newline>'' @ replicate 1200 (CHR ''x'')) = 1206"
  "(''Title\<newline>'' @ replicate 1200 (CHR ''x'')) ! 5 = CHR 0x0A"
  "\<forall>i. 5 < i \<and> i < 1000 \<longrightarrow> (''Title\<newline>'' @ replicate 1200 (CHR ''x'')) ! i \<noteq> CHR 0x0A"
proof -
  show "length (''Title\<newline>'' @ replicate 1200 (CHR ''x'')) = 1206" by simp
  show "(''Title\<newline>'' @ replicate 1200 (CHR ''x'')) ! 5 = CHR 0x0A"
    by (simp only: nth_append) (simp add: eval_nat_numeral)
  show "\<forall>i. 5 < i \<and> i < 1000 \<longrightarrow> (''Title\<newline>'' @ replicate 1200 (CHR ''x'')) ! i \<noteq> CHR 0x0A"
  proof (intro allI impI)
    fix i :: nat
    assume i: "5 < i \<and> i < 1000"
    have "length ''Title\<newline>'' = 6" by simp
    with i have "(''Title\<newline>'' @ replicate 1200 (CHR ''x'')) ! i = replicate 1200 (CHR ''x'') ! (i - 6)"
      by (simp only: nth_append) simp
    also have "\<dots> = CHR ''x''"
    proof (rule nth_replicate)
      from i show "i - 6 < 1200" by linarith
    qed
    finally show "(''Title\<newline>'' @ replicate 1200 (CHR ''x'')) ! i \<noteq> CHR 0x0A" by simp
  qed
qed

lemma title_window_ends:
  "window_end (''Title\<newline>'' @ replicate 1200 (CHR ''x'')) 1000 0 = 6"
  "window_end (''Title\<newline>'' @ replicate 1200 (CHR ''x'')) 1000 (- 194) = 0"
  "window_end (''Title\<newline>'' @ replicate 1200 (CHR ''x'')) 1000 (- 200) = 0"
proof -
  define T where "T = ''Title\<newline>'' @ replicate 1200 (CHR ''x'')"
  have l: "length T = 1206" and n: "T ! 5 = CHR 0x0A"
    and x: "\<forall>i. 5 < i \<and> i < 1000 \<longrightarrow> T ! i \<noteq> CHR 0x0A"
    unfolding T_def by (rule title_text)+
  have "rfind_down (CHR 0x0A) T 0 1000 = int 5"
    by (rule rfind_down_last[OF _ _ n x]) simp_all
  then have "py_rfind (CHR 0x0A) T 0 1000 = 5" by (simp add: py_rfind_def slice_index_def l)
  then have 1: "window_end T 1000 0 = 6" by (simp add: window_end_def l)
  have "py_rfind (CHR 0x0A) T (- 194) 806 = - 1"
    by (simp add: py_rfind_def slice_index_def l rfind_down_empty)
  then have 2: "window_end T 1000 (- 194) = 0" by (simp add: window_end_def l)
  have "py_rfind (CHR 0x0A) T (- 200) 800 = - 1"
    by (simp add: py_rfind_def slice_index_def l rfind_down_empty)
  then have 3: "window_end T 1000 (- 200) = 0" by (simp add: window_end_def l)
  from 1 show "window_end (''Title\<newline>'' @ replicate 1200 (CHR ''x'')) 1000 0 = 6"
    unfolding T_def .
  from 2 show "window_end (''Title\<newline>'' @ replicate 1200 (CHR ''x'')) 1000 (- 194) = 0"
    unfolding T_def .
  from 3 show "window_end (''Title\<newline>'' @ replicate 1200 (CHR ''x'')) 1000 (- 200) = 0"
    unfolding T_def .
qed

lemma title_slices:
  "py_slice (''Title\<newline>'' @ replicate 1200 (CHR ''x'')) 0 6 = ''Title\<newline>''"
  "py_slice (''Title\<newline>'' @ replicate 1200 (CHR ''x'')) (- 194) 0 = ''''"
  "py_slice (''Title\<newline>'' @ replicate 1200 (CHR ''x'')) (- 200) 0 = ''''"
  by (simp_all add: py_slice_def slice_index_def)

lemma window_loop_stalled_below_zero:
  assumes "T = ''Title\<newline>'' @ replicate 1200 (CHR ''x'')"
  shows "window_loop mc T 1000 200 (- 200) c ws = Some (ws @ replicate (nat (mc - c)) (- 200, 0))"
proof (induction "nat (mc - c)" arbitrary: c ws)
  case 0
  then have "\<not> c < mc" by simp
  with 0 show ?case by (subst window_loop.simps) simp
next
  case (Suc k)
  then have lt: "c < mc" by linarith
  from Suc(2) have k: "k = nat (mc - (c + 1))" by linarith
  have e: "window_end T 1000 (- 200) = 0" unfolding assms by (rule title_window_ends)
  have l: "int (length T) = 1206" unfolding assms by simp
  have "window_loop mc T 1000 200 (- 200) c ws
      = window_loop mc T 1000 200 (- 200) (c + 1) (ws @ [(- 200, 0)])"
    using lt e l by (subst window_loop.simps) (simp add: Let_def)
  also have "\<dots> = Some ((ws @ [(- 200, 0)]) @ replicate k (- 200, 0))"
    using Suc(1)[OF k, of "ws @ [(- 200, 0)]"] k by simp
  also have "(ws @ [(- 200, 0)]) @ replicate k (- 200, 0) = ws @ replicate (Suc k) (- 200::int, 0::int)"
    by simp
  finally show ?case using Suc(2) by simp
qed

lemma chunk_windows_fall_back:
  "chunk_windows max_chunks (''Title\<newline>'' @ replicate 1200 (CHR ''x'')) 1000 200
     = Some (take (nat max_chunks) ((0, 6) # (- 194, 0) # replicate (nat max_chunks - 2) (- 200, 0)))"
proof -
  define T where "T = ''Title\<newline>'' @ replicate 1200 (CHR ''x'')"
  have e: "window_end T 1000 0 = 6" "window_end T 1000 (- 194) = 0"
    unfolding T_def by (rule title_window_ends)+
  have l: "int (length T) = 1206" "T \<noteq> []" unfolding T_def by simp_all
  have w: "chunk_windows max_chunks T 1000 200 = window_loop max_chunks T 1000 200 0 0 []"
    using l(2) by (simp add: chunk_windows_def)
  consider "max_chunks \<le> 0" | "max_chunks = 1" | "2 \<le> max_chunks" by linarith
  then have "window_loop max_chunks T 1000 200 0 0 []
      = Some (take (nat max_chunks) ((0, 6) # (- 194, 0) # replicate (nat max_chunks - 2) (- 200, 0)))"
  proof cases
    case 1
    then show ?thesis by (subst window_loop.simps) simp
  next
    case 2
    have "window_loop max_chunks T 1000 200 0 0 [] = window_loop max_chunks T 1000 200 (- 194) 1 [(0, 6)]"
      using 2 e l by (subst window_loop.simps) (simp add: Let_def)
    also have "\<dots> = Some [(0, 6)]" using 2 by (subst window_loop.simps) simp
    finally show ?thesis using 2 by simp
  next
    case 3
    have "window_loop max_chunks T 1000 200 0 0 [] = window_loop max_chunks T 1000 200 (- 194) 1 [(0, 6)]"
      using 3 e l by (subst window_loop.simps) (simp add: Let_def)
    also have "\<dots> = window_loop max_chunks T 1000 200 (- 200) 2 [(0, 6), (- 194, 0)]"
      using 3 e l by (subst window_loop.simps) (simp add: Let_def)
    also have "\<dots> = Some ([(0, 6), (- 194, 0)] @ replicate (nat (max_chunks - 2)) (- 200, 0))"
      by (rule window_loop_stalled_below_zero[OF T_def])
    finally show ?thesis using 3 by (simp add: nat_diff_distrib')
  qed
  with w show ?thesis unfolding T_def by simp
qed

lemma chunk_text_falls_back_defaults:
  "chunk_text max_chunks (''Title\<newline>'' @ replicate 1200 (CHR ''x'')) 1000 200
     = Some (take (nat max_chunks) (''Title\<newline>'' # replicate (nat max_chunks - 1) ''''))
   \<and> \<not> covers (''Title\<newline>'' @ replicate 1200 (CHR ''x''))
         (take (nat max_chunks) ((0, 6) # (- 194, 0) # replicate (nat max_chunks - 2) (- 200, 0)))"
proof -
  define T where "T = ''Title\<newline>'' @ replicate 1200 (CHR ''x'')"
  let ?ws = "take (nat max_chunks) ((0, 6) # (- 194, 0) # replicate (nat max_chunks - 2) (- 200::int, 0::int))"
  have s: "py_slice T 0 6 = ''Title\<newline>''" "py_slice T (- 194) 0 = ''''" "py_slice T (- 200) 0 = ''''"
    unfolding T_def by (rule title_slices)+
  have "chunk_text max_chunks T 1000 200 = Some (map (\<lambda>w. py_slice T (fst w) (snd w)) ?ws)"
    using chunk_windows_fall_back[of max_chunks] by (simp add: chunk_text_windows T_def)
  moreover have "map (\<lambda>w. py_slice T (fst w) (snd w)) ?ws
      = take (nat max_chunks) (''Title\<newline>'' # replicate (nat max_chunks - 1) '''')"
  proof -
    have "map (\<lambda>w. py_slice T (fst w) (snd w)) ?ws
        = take (nat max_chunks) (''Title\<newline>'' # '''' # replicate (nat max_chunks - 2) '''')"
      by (simp add: take_map[symmetric] s)
    also have "\<dots> = take (nat max_chunks) (''Title\<newline>'' # replicate (nat max_chunks - 1) '''')"
    proof (cases "nat max_chunks - 1")
      case 0
      then show ?thesis by (cases "nat max_chunks") simp_all
    next
      case (Suc m)
      then have "nat max_chunks - 2 = m" by simp
      with Suc show ?thesis by simp
    qed
    finally show ?thesis .
  qed
  moreover have "\<not> covers T ?ws"
  proof -
    have "\<forall>w\<in>set ?ws. snd w \<le> 6" using set_take_subset[of "nat max_chunks"] by fastforce
    then have "\<not> in_window ?ws 6" by (fastforce simp: in_window_iff)
    moreover have "(0::int) \<le> 6 \<and> 6 < int (length T)" unfolding T_def by simp
    ultimately show ?thesis unfolding covers_iff by blast
  qed
  ultimately show ?thesis unfolding T_def by simp
qed

lemma chunk_text_falls_back_defaults_example:
  "chunk_text 5000 (''Title\<newline>'' @ replicate 1200 (CHR ''x'')) 1000 200
     = Some (''Title\<newline>'' # replicate 4999 '''')"
  using chunk_text_falls_back_defaults[of 5000] by simp

end
